theory Spec2Isabelle
  imports Complex_Main
begin

section \<open>Python values, dictionaries and exceptions\<close>

text \<open>
  The values that travel through the tool layer are the ones \<^verbatim>\<open>json.loads\<close> produces
  and the protocol delivers as keyword arguments: \<^verbatim>\<open>None\<close>, booleans, unbounded integers,
  floats, strings, lists and string-keyed dictionaries. A float is represented by the real
  number it denotes.

  A Python \<^verbatim>\<open>dict\<close> keeps its keys in insertion order, so it is an association list.
  Assigning to an existing key keeps the key's position; assigning to a new key appends.
\<close>

datatype pyval =
    PNone
  | PBool bool
  | PInt int
  | PFloat real
  | PStr string
  | PList "pyval list"
  | PDict "(string \<times> pyval) list"

type_synonym pydict = "(string \<times> pyval) list"

fun dict_set :: "('k \<times> 'v) list \<Rightarrow> 'k \<Rightarrow> 'v \<Rightarrow> ('k \<times> 'v) list" where
  "dict_set [] k v = [(k, v)]"
| "dict_set ((k', v') # d) k v =
     (if k' = k then (k, v) # d else (k', v') # dict_set d k v)"

definition dict_get :: "('k \<times> 'v) list \<Rightarrow> 'k \<Rightarrow> 'v option" where
  "dict_get d k = map_of d k"

definition dict_contains :: "('k \<times> 'v) list \<Rightarrow> 'k \<Rightarrow> bool" where
  "dict_contains d k = (dict_get d k \<noteq> None)"

definition dict_del :: "('k \<times> 'v) list \<Rightarrow> 'k \<Rightarrow> ('k \<times> 'v) list" where
  "dict_del d k = filter (\<lambda>e. fst e \<noteq> k) d"

definition dict_keys :: "('k \<times> 'v) list \<Rightarrow> 'k list" where
  "dict_keys d = map fst d"

definition dict_values :: "('k \<times> 'v) list \<Rightarrow> 'v list" where
  "dict_values d = map snd d"

text \<open>
  Exceptions are values. Each constructor is a class deriving from \<^verbatim>\<open>Exception\<close> and
  carries the message that \<^verbatim>\<open>str(e)\<close> returns. \<open>OtherException c m\<close> stands for an
  instance of any further \<^verbatim>\<open>Exception\<close> subclass \<open>c\<close> that is neither a
  \<^verbatim>\<open>ValueError\<close> nor a \<^verbatim>\<open>TypeError\<close>.
\<close>

datatype py_exc =
    ValueError string
  | TypeError string
  | AttributeError string
  | RuntimeError string
  | OverflowError string
  | OtherException string string

fun exc_str :: "py_exc \<Rightarrow> string" where
  "exc_str (ValueError m) = m"
| "exc_str (TypeError m) = m"
| "exc_str (AttributeError m) = m"
| "exc_str (RuntimeError m) = m"
| "exc_str (OverflowError m) = m"
| "exc_str (OtherException c m) = m"

fun is_ValueError_or_TypeError :: "py_exc \<Rightarrow> bool" where
  "is_ValueError_or_TypeError (ValueError m) = True"
| "is_ValueError_or_TypeError (TypeError m) = True"
| "is_ValueError_or_TypeError e = False"

section \<open>Tools and their parameter contract (serena/tools)\<close>

text \<open>
  \<^verbatim>\<open>ToolParameter.type\<close> is a Python class. The code uses three things of it: its
  \<^verbatim>\<open>__name__\<close>, \<^verbatim>\<open>isinstance(value, type)\<close> and the constructor call
  \<^verbatim>\<open>type(value)\<close>, which may raise.
\<close>

record py_type =
  type_name :: string
  isinstance :: "pyval \<Rightarrow> bool"
  construct :: "pyval \<Rightarrow> py_exc + pyval"

record ToolParameter =
  param_name :: string
  param_type :: py_type
  param_description :: string
  required :: bool
  default :: pyval

text \<open>
  A tool: the fields of class \<^verbatim>\<open>Tool\<close> and its abstract method \<^verbatim>\<open>execute\<close>,
  which receives the request context (of type \<open>'c\<close>) and the keyword arguments and either
  returns a value or raises.
\<close>

record 'c Tool =
  tool_name :: string
  tool_description :: string
  parameters :: "ToolParameter list"
  execute :: "'c \<Rightarrow> pydict \<Rightarrow> py_exc + pyval"

text \<open>
  \<^verbatim>\<open>Tool.validate_parameters\<close>. \<open>coerce\<close> is the type check of a supplied value: the
  value is kept when it is an instance of the declared type, otherwise the type's
  constructor is called, and a \<^verbatim>\<open>ValueError\<close> or \<^verbatim>\<open>TypeError\<close> from it is
  replaced by the \<^verbatim>\<open>ValueError\<close> naming the parameter; any other exception propagates.
\<close>

definition coerce :: "ToolParameter \<Rightarrow> pyval \<Rightarrow> py_exc + pyval" where
  "coerce p v =
     (if isinstance (param_type p) v then Inr v
      else (case construct (param_type p) v of
              Inr v' \<Rightarrow> Inr v'
            | Inl e \<Rightarrow>
                if is_ValueError_or_TypeError e
                then Inl (ValueError (''Parameter '' @ param_name p @ '' must be of type ''
                                       @ type_name (param_type p)))
                else Inl e))"

fun validate_loop :: "ToolParameter list \<Rightarrow> pydict \<Rightarrow> pydict \<Rightarrow> py_exc + pydict" where
  "validate_loop [] kwargs validated = Inr validated"
| "validate_loop (p # ps) kwargs validated =
     (case dict_get kwargs (param_name p) of
        Some v \<Rightarrow>
          (case coerce p v of
             Inl e \<Rightarrow> Inl e
           | Inr v' \<Rightarrow> validate_loop ps kwargs (dict_set validated (param_name p) v'))
      | None \<Rightarrow>
          if required p then
            (if default p \<noteq> PNone
             then validate_loop ps kwargs (dict_set validated (param_name p) (default p))
             else Inl (ValueError (''Required parameter '' @ param_name p @ '' is missing'')))
          else if default p \<noteq> PNone
          then validate_loop ps kwargs (dict_set validated (param_name p) (default p))
          else validate_loop ps kwargs validated)"

definition validate_parameters :: "ToolParameter list \<Rightarrow> pydict \<Rightarrow> py_exc + pydict" where
  "validate_parameters ps kwargs = validate_loop ps kwargs []"

text \<open>
  Two things used below: the name of a value's class, and the builtin class
  \<^verbatim>\<open>list\<close> as a parameter type (\<^verbatim>\<open>list(x)\<close> copies a list, splits a string into
  its characters, lists the keys of a dictionary and raises \<^verbatim>\<open>TypeError\<close> on a value
  that is not iterable).
\<close>

definition quoted :: "string \<Rightarrow> string" where
  "quoted s = [CHR 0x27] @ s @ [CHR 0x27]"

fun py_type_name :: "pyval \<Rightarrow> string" where
  "py_type_name PNone = ''NoneType''"
| "py_type_name (PBool b) = ''bool''"
| "py_type_name (PInt i) = ''int''"
| "py_type_name (PFloat r) = ''float''"
| "py_type_name (PStr s) = ''str''"
| "py_type_name (PList xs) = ''list''"
| "py_type_name (PDict d) = ''dict''"


text \<open>
  \<^verbatim>\<open>PlaceholderTool\<close>. Its two parameters have type \<^verbatim>\<open>str\<close>; Python's builtin
  \<^verbatim>\<open>str()\<close> is not code of the repository and is the parameter \<open>py_str\<close>.
  \<^verbatim>\<open>execute\<close> validates first and formats the validated dictionary into its result.
\<close>

definition str_type :: "(pyval \<Rightarrow> string) \<Rightarrow> py_type" where
  "str_type py_str =
     \<lparr>type_name = ''str'',
      isinstance = (\<lambda>v. case v of PStr s \<Rightarrow> True | _ \<Rightarrow> False),
      construct = (\<lambda>v. Inr (PStr (py_str v)))\<rparr>"

definition placeholder_parameters :: "(pyval \<Rightarrow> string) \<Rightarrow> ToolParameter list" where
  "placeholder_parameters py_str =
     [\<lparr>param_name = ''query'', param_type = str_type py_str,
       param_description = ''Query or search term'', required = False, default = PStr ''''\<rparr>,
      \<lparr>param_name = ''path'', param_type = str_type py_str,
       param_description = ''File or directory path'', required = False, default = PStr ''.''\<rparr>]"

definition PlaceholderTool :: "(pyval \<Rightarrow> string) \<Rightarrow> string \<Rightarrow> string \<Rightarrow> 'c Tool" where
  "PlaceholderTool py_str n d =
     \<lparr>tool_name = n,
      tool_description = d,
      parameters = placeholder_parameters py_str,
      execute = (\<lambda>context kwargs.
        case validate_parameters (placeholder_parameters py_str) kwargs of
          Inl e \<Rightarrow> Inl e
        | Inr validated_params \<Rightarrow>
            Inr (PStr (''Placeholder tool '' @ [CHR 0x27] @ n @ [CHR 0x27]
                       @ '' executed with parameters: '' @ py_str (PDict validated_params))))\<rparr>"

text \<open>
  \<^verbatim>\<open>Tool.get_schema\<close> builds the descriptor of the tool and returns it as a JSON
  string; the model returns the dictionary. \<^verbatim>\<open>_get_json_type\<close> looks the parameter's
  class up in a table of the six builtin classes, which the model identifies by their
  names, and answers \<^verbatim>\<open>"string"\<close> for every other class.
\<close>

definition get_json_type :: "py_type \<Rightarrow> string" where
  "get_json_type python_type =
     (case dict_get [(''str'', ''string''), (''int'', ''integer''), (''float'', ''number''),
                     (''bool'', ''boolean''), (''list'', ''array''), (''dict'', ''object'')]
             (type_name python_type) of
        Some j \<Rightarrow> j
      | None \<Rightarrow> ''string'')"

fun schema_properties :: "ToolParameter list \<Rightarrow> pydict \<Rightarrow> pydict" where
  "schema_properties [] properties = properties"
| "schema_properties (param # rest) properties =
     schema_properties rest
       (dict_set properties (param_name param)
          (PDict [(''type'', PStr (get_json_type (param_type param))),
                  (''description'', PStr (param_description param))]))"

definition get_schema :: "'c Tool \<Rightarrow> pyval" where
  "get_schema tool =
     PDict [(''name'', PStr (tool_name tool)),
            (''description'', PStr (tool_description tool)),
            (''parameters'',
             PDict [(''type'', PStr ''object''),
                    (''properties'', PDict (schema_properties (parameters tool) [])),
                    (''required'',
                     PList (map (\<lambda>param. PStr (param_name param))
                              (filter required (parameters tool))))])]"


subsection \<open>The registry\<close>

text \<open>
  \<^verbatim>\<open>ToolRegistry\<close> holds one dictionary from name to tool. The \<^verbatim>\<open>log.debug\<close>
  calls of its methods change nothing in it and are left out.
\<close>

record 'c ToolRegistry =
  tools :: "(string \<times> 'c Tool) list"

definition register_tool :: "'c ToolRegistry \<Rightarrow> 'c Tool \<Rightarrow> 'c ToolRegistry" where
  "register_tool reg tool = reg\<lparr>tools := dict_set (tools reg) (tool_name tool) tool\<rparr>"

definition unregister_tool :: "'c ToolRegistry \<Rightarrow> string \<Rightarrow> 'c ToolRegistry" where
  "unregister_tool reg n =
     (if dict_contains (tools reg) n then reg\<lparr>tools := dict_del (tools reg) n\<rparr> else reg)"

definition get_tool :: "'c ToolRegistry \<Rightarrow> string \<Rightarrow> 'c Tool option" where
  "get_tool reg n = dict_get (tools reg) n"

definition list_tools :: "'c ToolRegistry \<Rightarrow> string list" where
  "list_tools reg = dict_keys (tools reg)"

definition builtin_tools :: "(string \<times> string) list" where
  "builtin_tools =
     [(''find_symbol'', ''Find symbols in the codebase''),
      (''get_symbols_overview'', ''Get overview of symbols in a file''),
      (''find_referencing_symbols'', ''Find symbols that reference a given symbol''),
      (''search_for_pattern'', ''Search for patterns in the codebase''),
      (''list_dir'', ''List directory contents''),
      (''find_file'', ''Find files in the project''),
      (''edit_symbol'', ''Edit a symbol in the codebase''),
      (''create_file'', ''Create a new file''),
      (''delete_file'', ''Delete a file''),
      (''analyze_code'', ''Analyze code quality and structure''),
      (''generate_report'', ''Generate analysis reports'')]"

fun load_builtin_tools ::
  "(pyval \<Rightarrow> string) \<Rightarrow> (string \<times> string) list \<Rightarrow> 'c ToolRegistry \<Rightarrow> 'c ToolRegistry" where
  "load_builtin_tools py_str [] reg = reg"
| "load_builtin_tools py_str ((n, d) # rest) reg =
     load_builtin_tools py_str rest (register_tool reg (PlaceholderTool py_str n d))"

definition ToolRegistry_init :: "(pyval \<Rightarrow> string) \<Rightarrow> 'c ToolRegistry" where
  "ToolRegistry_init py_str = load_builtin_tools py_str builtin_tools \<lparr>tools = []\<rparr>"

text \<open>
  The dictionary of a registry that only \<^verbatim>\<open>register_tool\<close> and
  \<^verbatim>\<open>unregister_tool\<close> have written: the keys are distinct and each tool is stored
  under its own name.
\<close>

definition registry_consistent :: "'c ToolRegistry \<Rightarrow> bool" where
  "registry_consistent reg =
     (distinct (map fst (tools reg)) \<and> list_all (\<lambda>e. tool_name (snd e) = fst e) (tools reg))"

section \<open>Contexts and modes (serena/config/context_mode.py)\<close>

record SerenaAgentContext =
  ctx_name :: string
  ctx_description :: string
  ctx_settings :: pydict
  ctx_tools :: "string list"
  memory_settings :: pydict

record SerenaAgentMode =
  mode_name :: string
  mode_description :: string
  enabled_tools :: "string list"
  disabled_tools :: "string list"
  mode_settings :: pydict

definition builtin_contexts :: "(string \<times> SerenaAgentContext) list" where
  "builtin_contexts =
     [(''default'',
       \<lparr>ctx_name = ''default'', ctx_description = ''Default context with standard tools'',
        ctx_settings = [(''max_results'', PInt 100), (''timeout'', PInt 30)],
        ctx_tools = [''find_symbol'', ''get_symbols_overview'', ''search_for_pattern''],
        memory_settings = []\<rparr>),
      (''minimal'',
       \<lparr>ctx_name = ''minimal'', ctx_description = ''Minimal context with basic tools only'',
        ctx_settings = [(''max_results'', PInt 50), (''timeout'', PInt 15)],
        ctx_tools = [''find_symbol'', ''search_for_pattern''],
        memory_settings = []\<rparr>),
      (''full'',
       \<lparr>ctx_name = ''full'', ctx_description = ''Full context with all available tools'',
        ctx_settings = [(''max_results'', PInt 500), (''timeout'', PInt 60)],
        ctx_tools = [],
        memory_settings = []\<rparr>)]"

definition builtin_modes :: "(string \<times> SerenaAgentMode) list" where
  "builtin_modes =
     [(''interactive'',
       \<lparr>mode_name = ''interactive'',
        mode_description = ''Interactive mode for user communication'',
        enabled_tools = [''ask_user'', ''show_message''],
        disabled_tools = [],
        mode_settings = [(''interactive'', PBool True), (''auto_confirm'', PBool False)]\<rparr>),
      (''editing'',
       \<lparr>mode_name = ''editing'',
        mode_description = ''Editing mode for code modifications'',
        enabled_tools = [''edit_symbol'', ''create_file'', ''delete_file''],
        disabled_tools = [],
        mode_settings = [(''backup_files'', PBool True), (''validate_syntax'', PBool True)]\<rparr>),
      (''analysis'',
       \<lparr>mode_name = ''analysis'',
        mode_description = ''Analysis mode for code inspection'',
        enabled_tools = [''analyze_code'', ''generate_report''],
        disabled_tools = [''edit_symbol'', ''create_file'', ''delete_file''],
        mode_settings = [(''deep_analysis'', PBool True), (''generate_metrics'', PBool True)]\<rparr>),
      (''monitoring'',
       \<lparr>mode_name = ''monitoring'',
        mode_description = ''Monitoring mode for watching changes'',
        enabled_tools = [''watch_files'', ''track_changes''],
        disabled_tools = [],
        mode_settings = [(''watch_interval'', PFloat 1), (''auto_refresh'', PBool True)]\<rparr>)]"

definition default_context :: SerenaAgentContext where
  "default_context = the (dict_get builtin_contexts ''default'')"

definition interactive_mode :: SerenaAgentMode where
  "interactive_mode = the (dict_get builtin_modes ''interactive'')"

text \<open>
  The file system is outside the program. \<open>path_exists\<close> is the outcome of
  \<^verbatim>\<open>Path(x).exists()\<close>: a boolean, or the \<^verbatim>\<open>OSError\<close> that the underlying
  \<^verbatim>\<open>stat\<close> call raises for errors other than "no such file" (a name that is too long,
  a directory that may not be searched). \<open>path_suffix\<close> and \<open>path_str\<close> are
  \<^verbatim>\<open>Path(x).suffix\<close> and \<^verbatim>\<open>str(Path(x))\<close>. \<open>read_context_file\<close> and
  \<open>read_mode_file\<close> are the outcome of the body of the \<^verbatim>\<open>try\<close> block (open the
  file, \<^verbatim>\<open>json.load\<close>, \<^verbatim>\<open>cls(**data)\<close>): the object built, or the exception raised.

  The logger is modelled by the records a call emits, in order. A call of \<^verbatim>\<open>load\<close>
  returns the object or raises; the test of the path stands before the \<^verbatim>\<open>try\<close>, so
  an exception of \<^verbatim>\<open>exists()\<close> leaves the function, while an exception of the
  \<^verbatim>\<open>try\<close> block is caught and leads to the default.
\<close>

record file_env =
  path_exists :: "string \<Rightarrow> py_exc + bool"
  path_suffix :: "string \<Rightarrow> string"
  path_str :: "string \<Rightarrow> string"
  read_context_file :: "string \<Rightarrow> py_exc + SerenaAgentContext"
  read_mode_file :: "string \<Rightarrow> py_exc + SerenaAgentMode"

datatype log_level = DEBUG | INFO | WARNING | ERROR

type_synonym log_record = "log_level \<times> string"

datatype 'a name_or = Name string | Instance 'a

fun SerenaAgentContext_load ::
  "file_env \<Rightarrow> SerenaAgentContext name_or
     \<Rightarrow> (py_exc + SerenaAgentContext) \<times> log_record list" where
  "SerenaAgentContext_load env (Instance c) = (Inr c, [])"
| "SerenaAgentContext_load env (Name context) =
     (case dict_get builtin_contexts context of
        Some c \<Rightarrow> (Inr c, [])
      | None \<Rightarrow>
          (let fallback = (\<lambda>logged.
                 (Inr default_context,
                  logged @ [(WARNING, ''Context '' @ quoted context @ '' not found, using default'')]))
           in case path_exists env context of
                Inl e \<Rightarrow> (Inl e, [])
              | Inr found \<Rightarrow>
                  if found \<and> path_suffix env context = ''.json''
                  then (case read_context_file env context of
                          Inr c \<Rightarrow> (Inr c, [])
                        | Inl e \<Rightarrow>
                            fallback [(WARNING, ''Failed to load context from ''
                                       @ path_str env context @ '': '' @ exc_str e)])
                  else fallback []))"

fun SerenaAgentMode_load ::
  "file_env \<Rightarrow> SerenaAgentMode name_or
     \<Rightarrow> (py_exc + SerenaAgentMode) \<times> log_record list" where
  "SerenaAgentMode_load env (Instance m) = (Inr m, [])"
| "SerenaAgentMode_load env (Name mode) =
     (case dict_get builtin_modes mode of
        Some m \<Rightarrow> (Inr m, [])
      | None \<Rightarrow>
          (let fallback = (\<lambda>logged.
                 (Inr interactive_mode,
                  logged @ [(WARNING, ''Mode '' @ quoted mode @ '' not found, using interactive'')]))
           in case path_exists env mode of
                Inl e \<Rightarrow> (Inl e, [])
              | Inr found \<Rightarrow>
                  if found \<and> path_suffix env mode = ''.json''
                  then (case read_mode_file env mode of
                          Inr m \<Rightarrow> (Inr m, [])
                        | Inl e \<Rightarrow>
                            fallback [(WARNING, ''Failed to load mode from ''
                                       @ path_str env mode @ '': '' @ exc_str e)])
                  else fallback []))"

text \<open>
  Three environments for the examples: one without any file; one in which every path is a
  JSON file whose content does not parse; and a Linux file system, where \<^verbatim>\<open>stat\<close>
  fails with \<^verbatim>\<open>ENAMETOOLONG\<close> on a name of more than 255 bytes and
  \<^verbatim>\<open>Path.exists\<close> lets that error through.
\<close>

definition no_files :: file_env where
  "no_files =
     \<lparr>path_exists = (\<lambda>p. Inr False), path_suffix = (\<lambda>p. []), path_str = (\<lambda>p. p),
      read_context_file = (\<lambda>p. Inl (OtherException ''FileNotFoundError'' p)),
      read_mode_file = (\<lambda>p. Inl (OtherException ''FileNotFoundError'' p))\<rparr>"

definition malformed_files :: file_env where
  "malformed_files =
     \<lparr>path_exists = (\<lambda>p. Inr True), path_suffix = (\<lambda>p. ''.json''), path_str = (\<lambda>p. p),
      read_context_file = (\<lambda>p. Inl (ValueError ''Expecting value: line 1 column 1 (char 0)'')),
      read_mode_file = (\<lambda>p. Inl (ValueError ''Expecting value: line 1 column 1 (char 0)''))\<rparr>"

definition name_too_long :: "string \<Rightarrow> py_exc" where
  "name_too_long p = OtherException ''OSError'' (''[Errno 36] File name too long: '' @ quoted p)"

definition long_name_files :: file_env where
  "long_name_files =
     \<lparr>path_exists = (\<lambda>p. if length p > 255 then Inl (name_too_long p) else Inr False),
      path_suffix = (\<lambda>p. []), path_str = (\<lambda>p. p),
      read_context_file = (\<lambda>p. Inl (OtherException ''FileNotFoundError'' p)),
      read_mode_file = (\<lambda>p. Inl (OtherException ''FileNotFoundError'' p))\<rparr>"

definition long_name :: string where
  "long_name = replicate 300 (CHR ''a'') @ ''.json''"

definition is_tool_enabled :: "SerenaAgentMode \<Rightarrow> string \<Rightarrow> bool" where
  "is_tool_enabled m tool_name' =
     (if tool_name' \<in> set (disabled_tools m) then False
      else if enabled_tools m \<noteq> [] \<and> tool_name' \<notin> set (enabled_tools m) then False
      else True)"

section \<open>The agent (serena/agent.py)\<close>

text \<open>
  \<^verbatim>\<open>SerenaAgent.__init__\<close> stores the configuration and creates a fresh
  \<^verbatim>\<open>ToolRegistry\<close>. \<^verbatim>\<open>_initialize\<close> then only looks tool names up and writes log
  records (\<^verbatim>\<open>_load_tool\<close> calls \<^verbatim>\<open>get_tool\<close> and logs the outcome), so it changes
  nothing in the agent. The resolved project path is not used by any tool operation and is
  kept as configured.
\<close>

record SerenaConfig =
  project_path :: "string option"
  config_context :: "SerenaAgentContext option"
  config_modes :: "SerenaAgentMode list"
  config_tools :: "string list"
  config_settings :: pydict

record 'c SerenaAgent =
  config :: SerenaConfig
  agent_context :: "SerenaAgentContext option"
  agent_modes :: "SerenaAgentMode list"
  tool_registry :: "'c ToolRegistry"

definition SerenaAgent_init :: "(pyval \<Rightarrow> string) \<Rightarrow> SerenaConfig \<Rightarrow> 'c SerenaAgent" where
  "SerenaAgent_init py_str cfg =
     \<lparr>config = cfg,
      agent_context = config_context cfg,
      agent_modes = config_modes cfg,
      tool_registry = ToolRegistry_init py_str\<rparr>"

definition get_available_tools :: "'c SerenaAgent \<Rightarrow> 'c Tool list" where
  "get_available_tools agent = dict_values (tools (tool_registry agent))"

text \<open>
  Configurations for the examples: the one \<^verbatim>\<open>create_mcp_server\<close> builds for the
  context "full", and one with the modes "analysis" and "editing".
\<close>

definition full_context :: SerenaAgentContext where
  "full_context = the (dict_get builtin_contexts ''full'')"

definition editing_mode :: SerenaAgentMode where
  "editing_mode = the (dict_get builtin_modes ''editing'')"

definition analysis_mode :: SerenaAgentMode where
  "analysis_mode = the (dict_get builtin_modes ''analysis'')"

definition full_session_config :: SerenaConfig where
  "full_session_config =
     \<lparr>project_path = None,
      config_context = Some full_context,
      config_modes = [interactive_mode, editing_mode],
      config_tools = [],
      config_settings = []\<rparr>"

definition analysis_config :: SerenaConfig where
  "analysis_config =
     \<lparr>project_path = None,
      config_context = Some full_context,
      config_modes = [analysis_mode, editing_mode],
      config_tools = [],
      config_settings = []\<rparr>"

section \<open>The schema sanitizer (SerenaMCPFactory._sanitize_for_openai_tools)\<close>

text \<open>
  The function parses its argument with \<^verbatim>\<open>json.loads\<close>, copies the result and runs
  \<^verbatim>\<open>walk\<close> on the copy, which rewrites it in place and is also what is returned. The
  model starts from the parsed value and returns the rewritten one, or the exception
  raised on the way.

  \<^verbatim>\<open>float(v)\<close> of an integer is the nearest double, ties going to the even mantissa,
  and raises \<^verbatim>\<open>OverflowError\<close> from \<open>2 ^ 1024\<close> on; integers below \<open>2 ^ 53\<close> in
  absolute value are exact. \<^verbatim>\<open>isinstance(v, int)\<close> holds for integers and for booleans.
\<close>

fun bit_length :: "nat \<Rightarrow> nat" where
  "bit_length n = (if n = 0 then 0 else Suc (bit_length (n div 2)))"

definition float_of_int :: "int \<Rightarrow> py_exc + real" where
  "float_of_int v =
     (let a = \<bar>v\<bar> in
      if a < 2 ^ 53 then Inr (of_int v)
      else
        (let e = bit_length (nat a) - 53;
             q = a div 2 ^ e;
             r = a mod 2 ^ e;
             h = 2 ^ (e - 1);
             q' = (if r > h \<or> (r = h \<and> odd q) then q + 1 else q);
             m = q' * 2 ^ e
         in if m \<ge> 2 ^ 1024
            then Inl (OverflowError ''int too large to convert to float'')
            else Inr (of_int (sgn v * m))))"

fun is_int :: "pyval \<Rightarrow> bool" where
  "is_int (PInt i) = True"
| "is_int (PBool b) = True"
| "is_int v = False"

fun py_float :: "pyval \<Rightarrow> py_exc + pyval" where
  "py_float (PInt i) = (case float_of_int i of Inl e \<Rightarrow> Inl e | Inr r \<Rightarrow> Inr (PFloat r))"
| "py_float (PBool b) = Inr (PFloat (if b then 1 else 0))"
| "py_float (PFloat r) = Inr (PFloat r)"
| "py_float v = Inl (TypeError (''float() argument must be a string or a real number, not ''
                                @ quoted (py_type_name v)))"

text \<open>A list comprehension whose element expression may raise: the first exception wins.\<close>

fun map_exc :: "('a \<Rightarrow> py_exc + 'b) \<Rightarrow> 'a list \<Rightarrow> py_exc + 'b list" where
  "map_exc f [] = Inr []"
| "map_exc f (x # xs) =
     (case f x of
        Inl e \<Rightarrow> Inl e
      | Inr y \<Rightarrow> (case map_exc f xs of Inl e \<Rightarrow> Inl e | Inr ys \<Rightarrow> Inr (y # ys)))"

text \<open>
  The first two blocks of \<^verbatim>\<open>walk\<close>: the treatment of \<^verbatim>\<open>type\<close> and of
  \<^verbatim>\<open>enum\<close>. \<open>default_multipleOf\<close> is the recurring
  \<^verbatim>\<open>if "multipleOf" not in node: node["multipleOf"] = 1\<close>.
\<close>

definition default_multipleOf :: "pydict \<Rightarrow> pydict" where
  "default_multipleOf node =
     (if \<not> dict_contains node ''multipleOf'' then dict_set node ''multipleOf'' (PInt 1) else node)"

definition handle_type :: "pydict \<Rightarrow> pydict" where
  "handle_type node =
     (case dict_get node ''type'' of
        Some (PStr t) \<Rightarrow>
          if t = ''integer''
          then default_multipleOf (dict_set node ''type'' (PStr ''number''))
          else node
      | Some (PList t) \<Rightarrow>
          (let t2 = map (\<lambda>x. if x \<noteq> PStr ''integer'' then x else PStr ''number'')
                      (filter (\<lambda>x. x \<noteq> PStr ''null'') t);
               t2 = (if t2 = [] then [PStr ''object''] else t2);
               node = dict_set node ''type'' (if length t2 = 1 then hd t2 else PList t2)
           in if PStr ''integer'' \<in> set t \<or> PStr ''number'' \<in> set t2
              then default_multipleOf node
              else node)
      | _ \<Rightarrow> node)"

definition handle_enum :: "pydict \<Rightarrow> py_exc + pydict" where
  "handle_enum node =
     (case dict_get node ''enum'' of
        Some (PList enum_vals) \<Rightarrow>
          if enum_vals \<noteq> [] \<and> list_all is_int enum_vals
          then (case map_exc py_float enum_vals of
                  Inl e \<Rightarrow> Inl e
                | Inr floats \<Rightarrow>
                    (let node = dict_set node ''enum'' (PList floats)
                     in if dict_get node ''type'' = Some (PStr ''integer'')
                        then Inr (default_multipleOf (dict_set node ''type'' (PStr ''number'')))
                        else Inr node))
          else Inr node
      | _ \<Rightarrow> Inr node)"

text \<open>
  The test of the simplification of \<^verbatim>\<open>oneOf\<close>/\<^verbatim>\<open>anyOf\<close>:
  \<^verbatim>\<open>types = [item.get("type") for item in value]\<close> raises \<^verbatim>\<open>AttributeError\<close> on an
  item that is no dictionary, \<^verbatim>\<open>set(types)\<close> raises \<^verbatim>\<open>TypeError\<close> on a type that
  is a list or a dictionary, and the set is compared with \<^verbatim>\<open>{"integer", "number"}\<close>.
  \<open>merge_first\<close> is the body of the simplification: the copy of the first branch with
  type \<^verbatim>\<open>number\<close> and the default \<^verbatim>\<open>multipleOf\<close>, written over the node after the
  key has been removed.
\<close>

fun item_type :: "pyval \<Rightarrow> py_exc + pyval" where
  "item_type (PDict d) = Inr (case dict_get d ''type'' of None \<Rightarrow> PNone | Some t \<Rightarrow> t)"
| "item_type v = Inl (AttributeError (quoted (py_type_name v) @ '' object has no attribute ''
                                      @ quoted ''get''))"

fun hashed :: "pyval \<Rightarrow> py_exc + pyval" where
  "hashed (PList xs) = Inl (TypeError (''unhashable type: '' @ quoted ''list''))"
| "hashed (PDict d) = Inl (TypeError (''unhashable type: '' @ quoted ''dict''))"
| "hashed v = Inr v"

definition differ_by_integer_number :: "pyval list \<Rightarrow> py_exc + bool" where
  "differ_by_integer_number items =
     (case map_exc item_type items of
        Inl e \<Rightarrow> Inl e
      | Inr types \<Rightarrow>
          (case map_exc hashed types of
             Inl e \<Rightarrow> Inl e
           | Inr hs \<Rightarrow> Inr (set hs = {PStr ''integer'', PStr ''number''})))"

fun dict_update :: "('k \<times> 'v) list \<Rightarrow> ('k \<times> 'v) list \<Rightarrow> ('k \<times> 'v) list" where
  "dict_update d [] = d"
| "dict_update d ((k, v) # other) = dict_update (dict_set d k v) other"

definition merge_first :: "pydict \<Rightarrow> string \<Rightarrow> pyval \<Rightarrow> pydict" where
  "merge_first node key first =
     (case first of
        PDict d \<Rightarrow> dict_update (dict_del node key)
                     (default_multipleOf (dict_set d ''type'' (PStr ''number'')))
      | _ \<Rightarrow> node)"

text \<open>
  A measure for the recursion of \<^verbatim>\<open>walk\<close>: it counts the lists and dictionaries of a
  value and their entries, so that the two blocks above, which replace scalars and may add
  the entry \<^verbatim>\<open>multipleOf\<close>, raise it by at most two.
\<close>

primrec rsize :: "pyval \<Rightarrow> nat" where
  "rsize PNone = 0"
| "rsize (PBool b) = 0"
| "rsize (PInt i) = 0"
| "rsize (PFloat r) = 0"
| "rsize (PStr s) = 0"
| "rsize (PList xs) = Suc (sum_list (map Suc (map rsize xs)))"
| "rsize (PDict d) = 3 + sum_list (map (\<lambda>e. Suc (snd e)) (map (map_prod id rsize) d))"

definition esize :: "pydict \<Rightarrow> nat" where
  "esize d = sum_list (map (\<lambda>e. Suc (rsize (snd e))) d)"

definition lsize :: "pyval list \<Rightarrow> nat" where
  "lsize xs = sum_list (map (\<lambda>x. Suc (rsize x)) xs)"

lemma rsize_PDict: "rsize (PDict d) = 3 + esize d"
  by (simp add: esize_def comp_def)

lemma rsize_PList: "rsize (PList xs) = Suc (lsize xs)"
  by (simp add: lsize_def comp_def)

lemma esize_dict_set_new:
  "dict_get d k = None \<Longrightarrow> esize (dict_set d k v) = esize d + Suc (rsize v)"
  by (induction d) (auto simp: esize_def dict_get_def split: if_splits)

lemma esize_dict_set_old:
  "dict_get d k = Some w \<Longrightarrow> rsize v \<le> rsize w \<Longrightarrow> esize (dict_set d k v) \<le> esize d"
  by (induction d) (auto simp: esize_def dict_get_def split: if_splits)

lemma esize_default_multipleOf: "esize (default_multipleOf d) \<le> esize d + 1"
  by (simp add: default_multipleOf_def dict_contains_def esize_dict_set_new)

lemma lsize_retype:
  "lsize (map (\<lambda>x. if x \<noteq> PStr ''integer'' then x else PStr ''number'')
        (filter (\<lambda>x. x \<noteq> PStr ''null'') t)) \<le> lsize t"
  by (induction t) (auto simp: lsize_def)

lemma rsize_hd: "xs \<noteq> [] \<Longrightarrow> rsize (hd xs) \<le> lsize xs"
  by (cases xs) (auto simp: lsize_def)

lemma esize_handle_type: "esize (handle_type d) \<le> esize d + 1"
proof (cases "dict_get d ''type''")
  case None
  then show ?thesis by (simp add: handle_type_def)
next
  case (Some ty)
  show ?thesis
  proof (cases ty)
    case (PStr t)
    have "esize (dict_set d ''type'' (PStr ''number'')) \<le> esize d"
      using Some PStr by (intro esize_dict_set_old [where w = ty]) auto
    with esize_default_multipleOf [of "dict_set d ''type'' (PStr ''number'')"]
    show ?thesis using Some PStr by (simp add: handle_type_def)
  next
    case (PList t)
    define t2 where "t2 = map (\<lambda>x. if x \<noteq> PStr ''integer'' then x else PStr ''number'')
                      (filter (\<lambda>x. x \<noteq> PStr ''null'') t)"
    define t3 where "t3 = (if t2 = [] then [PStr ''object''] else t2)"
    define nv where "nv = (if length t3 = 1 then hd t3 else PList t3)"
    have l2: "lsize t2 \<le> lsize t" unfolding t2_def by (rule lsize_retype)
    have "rsize nv \<le> rsize ty"
    proof (cases "t2 = []")
      case True
      then show ?thesis by (simp add: nv_def t3_def)
    next
      case False
      then have t3: "t3 = t2" by (simp add: t3_def)
      show ?thesis
      proof (cases "length t2 = 1")
        case True
        with rsize_hd [OF False] l2 show ?thesis
          by (simp add: nv_def t3 PList rsize_PList del: rsize.simps)
      next
        case False
        with l2 show ?thesis by (simp add: nv_def t3 PList rsize_PList del: rsize.simps)
      qed
    qed
    then have "esize (dict_set d ''type'' nv) \<le> esize d"
      using Some by (intro esize_dict_set_old [where w = ty]) auto
    moreover note esize_default_multipleOf [of "dict_set d ''type'' nv"]
    moreover have "handle_type d =
        (if PStr ''integer'' \<in> set t \<or> PStr ''number'' \<in> set t3
         then default_multipleOf (dict_set d ''type'' nv) else dict_set d ''type'' nv)"
      using Some PList unfolding handle_type_def t2_def t3_def nv_def by (simp add: Let_def)
    ultimately show ?thesis by simp
  qed (simp_all add: handle_type_def Some)
qed

lemma map_exc_length: "map_exc f xs = Inr ys \<Longrightarrow> length ys = length xs"
  by (induction xs arbitrary: ys) (auto split: sum.splits)

lemma py_float_rsize: "py_float x = Inr y \<Longrightarrow> rsize y = 0"
  by (cases x) (auto split: sum.splits)

lemma lsize_floats: "map_exc py_float xs = Inr ys \<Longrightarrow> lsize ys = length xs"
  by (induction xs arbitrary: ys) (auto simp: lsize_def py_float_rsize split: sum.splits)

lemma length_le_lsize: "length xs \<le> lsize xs"
  by (induction xs) (auto simp: lsize_def)

lemma esize_handle_enum: "handle_enum d = Inr n \<Longrightarrow> esize n \<le> esize d + 1"
proof (cases "dict_get d ''enum''")
  case None
  assume "handle_enum d = Inr n"
  with None show ?thesis by (simp add: handle_enum_def)
next
  case (Some ev)
  assume h: "handle_enum d = Inr n"
  show ?thesis
  proof (cases ev)
    case (PList vals)
    show ?thesis
    proof (cases "vals \<noteq> [] \<and> list_all is_int vals")
      case False
      with h Some PList show ?thesis by (auto simp: handle_enum_def)
    next
      case True
      with h Some PList obtain floats where f: "map_exc py_float vals = Inr floats"
        by (auto simp: handle_enum_def split: sum.splits)
      let ?n1 = "dict_set d ''enum'' (PList floats)"
      from lsize_floats [OF f] length_le_lsize [of vals]
      have "rsize (PList floats) \<le> rsize ev" by (simp add: PList rsize_PList del: rsize.simps)
      then have e1: "esize ?n1 \<le> esize d"
        using Some by (intro esize_dict_set_old [where w = ev]) auto
      show ?thesis
      proof (cases "dict_get ?n1 ''type'' = Some (PStr ''integer'')")
        case False
        with h Some PList True f e1 show ?thesis
          by (auto simp: handle_enum_def Let_def)
      next
        case T: True
        then have "esize (dict_set ?n1 ''type'' (PStr ''number'')) \<le> esize ?n1"
          by (intro esize_dict_set_old [where w = "PStr ''integer''"]) auto
        with esize_default_multipleOf [of "dict_set ?n1 ''type'' (PStr ''number'')"] e1
        have "esize (default_multipleOf (dict_set ?n1 ''type'' (PStr ''number''))) \<le> esize d + 1"
          by simp
        with h Some PList True f T show ?thesis
          by (auto simp: handle_enum_def Let_def)
      qed
    qed
  qed (use h Some in \<open>simp_all add: handle_enum_def\<close>)
qed

lemma esize_sanitized_node:
  "handle_enum (handle_type d) = Inr n \<Longrightarrow> esize n < rsize (PDict d)"
  using esize_handle_enum [of "handle_type d" n] esize_handle_type [of d]
  by (simp add: rsize_PDict del: rsize.simps)

text \<open>
  \<^verbatim>\<open>walk\<close>. A value that is no dictionary is returned as it is. \<open>walk_list\<close> is
  \<^verbatim>\<open>for item in value: walk(item)\<close>, and \<open>walk_items node rest\<close> is the loop over
  \<^verbatim>\<open>node.items()\<close> with \<open>rest\<close> the entries still to come; a nested value is
  rewritten in place, which the model writes as an assignment to its key.

  In the branch of the simplification the loop removes a key of the dictionary it is
  iterating over and adds others. Python's dictionary iterator then raises
  \<^verbatim>\<open>RuntimeError\<close> at its next step when the size has changed; when the size is the same
  the model goes on with the remaining entries. Lemma \<open>walk_never_differs\<close> below shows
  that the test guarding this branch is false after every successful walk of the branches,
  so the branch is never taken.
\<close>

function walk :: "pyval \<Rightarrow> py_exc + pyval"
  and walk_list :: "pyval list \<Rightarrow> py_exc + pyval list"
  and walk_items :: "pydict \<Rightarrow> pydict \<Rightarrow> py_exc + pydict"
where
  "walk (PDict d) =
     (case handle_enum (handle_type d) of
        Inl e \<Rightarrow> Inl e
      | Inr node \<Rightarrow>
          (case walk_items node node of
             Inl e \<Rightarrow> Inl e
           | Inr node' \<Rightarrow> Inr (PDict node')))"
| "walk PNone = Inr PNone"
| "walk (PBool b) = Inr (PBool b)"
| "walk (PInt i) = Inr (PInt i)"
| "walk (PFloat r) = Inr (PFloat r)"
| "walk (PStr s) = Inr (PStr s)"
| "walk (PList xs) = Inr (PList xs)"
| "walk_list [] = Inr []"
| "walk_list (item # items) =
     (case walk item of
        Inl e \<Rightarrow> Inl e
      | Inr item' \<Rightarrow>
          (case walk_list items of
             Inl e \<Rightarrow> Inl e
           | Inr items' \<Rightarrow> Inr (item' # items')))"
| "walk_items node [] = Inr node"
| "walk_items node ((key, value) # rest) =
     (if key \<in> {''properties'', ''additionalProperties'', ''items''} then
        (case value of
           PDict d \<Rightarrow>
             (case walk value of
                Inl e \<Rightarrow> Inl e
              | Inr value' \<Rightarrow> walk_items (dict_set node key value') rest)
         | PList xs \<Rightarrow>
             (case walk_list xs of
                Inl e \<Rightarrow> Inl e
              | Inr xs' \<Rightarrow> walk_items (dict_set node key (PList xs')) rest)
         | _ \<Rightarrow> walk_items node rest)
      else if key \<in> {''oneOf'', ''anyOf'', ''allOf''} then
        (case value of
           PList xs \<Rightarrow>
             (case walk_list xs of
                Inl e \<Rightarrow> Inl e
              | Inr xs' \<Rightarrow>
                  (let node1 = dict_set node key (PList xs') in
                   if key \<in> {''oneOf'', ''anyOf''} \<and> length xs' = 2 then
                     (case differ_by_integer_number xs' of
                        Inl e \<Rightarrow> Inl e
                      | Inr differ \<Rightarrow>
                          if differ then
                            (let node2 = merge_first node1 key (hd xs') in
                             if length node2 \<noteq> length node1
                             then Inl (RuntimeError ''dictionary changed size during iteration'')
                             else walk_items node2 rest)
                          else walk_items node1 rest)
                   else walk_items node1 rest))
         | _ \<Rightarrow> walk_items node rest)
      else walk_items node rest)"
  by pat_completeness auto
termination
proof (relation "measure (\<lambda>x. case x of
            Inl v \<Rightarrow> rsize v
          | Inr (Inl xs) \<Rightarrow> lsize xs
          | Inr (Inr (node, es)) \<Rightarrow> esize es)", goal_cases)
  case 1
  show ?case by simp
next
  case (2 d b)
  then show ?case by (simp add: esize_sanitized_node del: rsize.simps)
qed (simp_all (no_asm_simp) add: rsize_PList esize_def lsize_def del: rsize.simps)

definition sanitize_for_openai_tools :: "pyval \<Rightarrow> py_exc + pyval" where
  "sanitize_for_openai_tools schema = walk schema"

section \<open>The protocol adapter (serena/mcp.py)\<close>

text \<open>
  \<^verbatim>\<open>mcp_tool_wrapper\<close> is the handler that \<^verbatim>\<open>_create_mcp_tool\<close> defines for
  one tool. Its body is a
  \<^verbatim>\<open>try\<close> whose \<^verbatim>\<open>except Exception\<close> clause logs and returns the error text, so
  the outcome of a call is a string or, were anything to escape, an exception, together
  with the log records written. \<open>request_context\<close> builds the
  \<^verbatim>\<open>SerenaMCPRequestContext\<close> of the call from the agent.
\<close>

definition mcp_tool_wrapper ::
  "(pyval \<Rightarrow> string) \<Rightarrow> ('c SerenaAgent \<Rightarrow> 'c) \<Rightarrow> 'c Tool \<Rightarrow> 'c SerenaAgent \<Rightarrow> pydict
     \<Rightarrow> (py_exc + string) \<times> log_record list" where
  "mcp_tool_wrapper py_str request_context tool agent kwargs =
     (case execute tool (request_context agent) kwargs of
        Inr result \<Rightarrow> (Inr (case result of PStr s \<Rightarrow> s | _ \<Rightarrow> py_str result), [])
      | Inl e \<Rightarrow>
          (Inr (''Error: '' @ exc_str e),
           [(ERROR, ''Error executing tool '' @ tool_name tool @ '': '' @ exc_str e)]))"

text \<open>
  The FastMCP server belongs to an external library and is modelled by its table of
  handlers, keyed by name.

  \<^verbatim>\<open>_create_mcp_tool\<close> first computes the tool's schema and, for an OpenAI compatible
  server, sanitizes it; the string \<^verbatim>\<open>get_schema\<close> returns is read back by
  \<^verbatim>\<open>json.loads\<close>, so the model passes the value itself. Then the decorator expression
  \<^verbatim>\<open>mcp.tool(name=..., description=...)\<close> is evaluated. The name \<^verbatim>\<open>mcp\<close> is no
  parameter or local variable of the method and is not bound in the module (the import
  \<^verbatim>\<open>from mcp.server.fastmcp import server\<close> binds \<^verbatim>\<open>server\<close> only), so the
  evaluation raises \<^verbatim>\<open>NameError\<close>: the wrapper function is never defined and nothing
  is returned.
\<close>

record MCPTool =
  handler_name :: string
  handler_description :: string
  handler_fn :: "pydict \<Rightarrow> (py_exc + string) \<times> log_record list"

record FastMCP =
  handlers :: "(string \<times> MCPTool) list"

definition FastMCP_init :: "FastMCP" where
  "FastMCP_init = \<lparr>handlers = []\<rparr>"

definition mcp_register_tool :: "FastMCP \<Rightarrow> MCPTool \<Rightarrow> FastMCP" where
  "mcp_register_tool mcp h = mcp\<lparr>handlers := dict_set (handlers mcp) (handler_name h) h\<rparr>"

definition mcp_unbound :: py_exc where
  "mcp_unbound = OtherException ''NameError'' (''name '' @ quoted ''mcp'' @ '' is not defined'')"

definition create_mcp_tool ::
  "(pyval \<Rightarrow> string) \<Rightarrow> ('c SerenaAgent \<Rightarrow> 'c) \<Rightarrow> 'c Tool \<Rightarrow> 'c SerenaAgent \<Rightarrow> bool
     \<Rightarrow> py_exc + MCPTool" where
  "create_mcp_tool py_str request_context tool agent openai_tool_compatible =
     (case (if openai_tool_compatible
            then sanitize_for_openai_tools (get_schema tool)
            else Inr (get_schema tool)) of
        Inl e \<Rightarrow> Inl e
      | Inr schema \<Rightarrow> Inl mcp_unbound)"

text \<open>
  \<^verbatim>\<open>_register_tools\<close>: the loop over \<^verbatim>\<open>agent.get_available_tools()\<close>, which ends
  at the first exception.
\<close>

fun register_all ::
  "(pyval \<Rightarrow> string) \<Rightarrow> ('c SerenaAgent \<Rightarrow> 'c) \<Rightarrow> 'c SerenaAgent \<Rightarrow> bool \<Rightarrow> 'c Tool list
     \<Rightarrow> FastMCP \<Rightarrow> py_exc + FastMCP" where
  "register_all py_str request_context agent openai_tool_compatible [] mcp = Inr mcp"
| "register_all py_str request_context agent openai_tool_compatible (tool # rest) mcp =
     (case create_mcp_tool py_str request_context tool agent openai_tool_compatible of
        Inl e \<Rightarrow> Inl e
      | Inr mcp_tool \<Rightarrow>
          register_all py_str request_context agent openai_tool_compatible rest
            (mcp_register_tool mcp mcp_tool))"

definition register_tools ::
  "(pyval \<Rightarrow> string) \<Rightarrow> ('c SerenaAgent \<Rightarrow> 'c) \<Rightarrow> FastMCP \<Rightarrow> 'c SerenaAgent \<Rightarrow> bool
     \<Rightarrow> py_exc + FastMCP" where
  "register_tools py_str request_context mcp agent openai_tool_compatible =
     register_all py_str request_context agent openai_tool_compatible
       (get_available_tools agent) mcp"

definition DEFAULT_CONTEXT :: string where
  "DEFAULT_CONTEXT = ''default''"

definition DEFAULT_MODES :: "string list" where
  "DEFAULT_MODES = [''interactive'', ''editing'']"

text \<open>
  \<^verbatim>\<open>create_mcp_server\<close>: the factory loads the context, the method loads the default
  modes, builds the configuration and the agent, creates the server and registers the
  tools. \<open>server_config\<close> is the configuration it builds.
\<close>

definition server_config ::
  "file_env \<Rightarrow> SerenaAgentContext name_or \<Rightarrow> string option \<Rightarrow> py_exc + SerenaConfig" where
  "server_config env context project =
     (case fst (SerenaAgentContext_load env context) of
        Inl e \<Rightarrow> Inl e
      | Inr c \<Rightarrow>
          (case map_exc (\<lambda>mode. fst (SerenaAgentMode_load env (Name mode))) DEFAULT_MODES of
             Inl e \<Rightarrow> Inl e
           | Inr ms \<Rightarrow>
               Inr \<lparr>project_path = project,
                    config_context = Some c,
                    config_modes = ms,
                    config_tools = [],
                    config_settings = []\<rparr>))"

definition create_mcp_server ::
  "file_env \<Rightarrow> (pyval \<Rightarrow> string) \<Rightarrow> ('c SerenaAgent \<Rightarrow> 'c) \<Rightarrow> SerenaAgentContext name_or
     \<Rightarrow> string option \<Rightarrow> bool \<Rightarrow> py_exc + FastMCP" where
  "create_mcp_server env py_str request_context context project openai_tool_compatible =
     (case server_config env context project of
        Inl e \<Rightarrow> Inl e
      | Inr cfg \<Rightarrow>
          register_tools py_str request_context FastMCP_init
            (SerenaAgent_init py_str cfg) openai_tool_compatible)"

text \<open>
  The capability resolver as the specification words it (section 4.2), for comparison
  with the tools the adapter is given; the source has no function of this kind. The base
  is the context's whitelist when it is not empty and the registry's listing otherwise;
  the deny set is the union of the modes' \<open>disabled_tools\<close>; the overlays are the
  non-empty \<open>enabled_tools\<close>; the visible names are the base, cut down to the union of
  the overlays when there is one, without the deny set.
\<close>

definition spec_resolve ::
  "'c ToolRegistry \<Rightarrow> SerenaAgentContext \<Rightarrow> SerenaAgentMode list \<Rightarrow> string list" where
  "spec_resolve reg ctx ms =
     (let base = (if ctx_tools ctx \<noteq> [] then ctx_tools ctx else list_tools reg);
          deny = concat (map disabled_tools ms);
          allow_overlays = filter (\<lambda>e. e \<noteq> []) (map enabled_tools ms)
      in if allow_overlays = []
         then filter (\<lambda>x. x \<notin> set deny) base
         else filter (\<lambda>x. x \<in> set (concat allow_overlays) \<and> x \<notin> set deny) base)"

section \<open>Properties of the registry\<close>

lemma dict_get_dict_set_same: "dict_get (dict_set d k v) k = Some v"
  by (induction d) (auto simp: dict_get_def)

lemma dict_get_dict_set_other: "k' \<noteq> k \<Longrightarrow> dict_get (dict_set d k v) k' = dict_get d k'"
  by (induction d) (auto simp: dict_get_def)

lemma length_dict_set:
  "length (dict_set d k v) = (if dict_get d k = None then Suc (length d) else length d)"
  by (induction d) (auto simp: dict_get_def)

lemma keys_dict_set:
  "map fst (dict_set d k v) = (if dict_get d k = None then map fst d @ [k] else map fst d)"
  by (induction d) (auto simp: dict_get_def)

text \<open>
  C8. Registering a tool under a name that the registry already holds leaves the number
  of registered tools (and the listing itself) unchanged, and a lookup of the name
  afterwards returns the second registration, with its description and executor.
\<close>

theorem register_tool_twice:
  assumes "get_tool reg (tool_name t) \<noteq> None"
  shows "length (list_tools (register_tool reg t)) = length (list_tools reg)
       \<and> list_tools (register_tool reg t) = list_tools reg
       \<and> get_tool (register_tool reg t) (tool_name t) = Some t"
  using assms
  by (simp add: get_tool_def list_tools_def register_tool_def dict_keys_def
      keys_dict_set dict_get_dict_set_same)

lemma tool_name_PlaceholderTool: "tool_name (PlaceholderTool py_str n d) = n"
  by (simp add: PlaceholderTool_def)

lemma tool_description_PlaceholderTool: "tool_description (PlaceholderTool py_str n d) = d"
  by (simp add: PlaceholderTool_def)

lemma tools_ToolRegistry_init:
  "tools (ToolRegistry_init py_str) =
     map (\<lambda>(n, d). (n, PlaceholderTool py_str n d)) builtin_tools"
  by (simp add: ToolRegistry_init_def builtin_tools_def register_tool_def
      tool_name_PlaceholderTool)

theorem register_tool_twice_witness:
  "get_tool (ToolRegistry_init (\<lambda>v. []) :: unit ToolRegistry)
      (tool_name (PlaceholderTool (\<lambda>v. []) ''find_symbol'' ''second'' :: unit Tool)) \<noteq> None
   \<and> length (list_tools (register_tool (ToolRegistry_init (\<lambda>v. []) :: unit ToolRegistry)
        (PlaceholderTool (\<lambda>v. []) ''find_symbol'' ''second''))) = 11
   \<and> map_option tool_description
        (get_tool (register_tool (ToolRegistry_init (\<lambda>v. []) :: unit ToolRegistry)
           (PlaceholderTool (\<lambda>v. []) ''find_symbol'' ''second'')) ''find_symbol'')
       = Some ''second''"
proof -
  let ?reg = "ToolRegistry_init (\<lambda>v. []) :: unit ToolRegistry"
  let ?t = "PlaceholderTool (\<lambda>v. []) ''find_symbol'' ''second'' :: unit Tool"
  have n: "tool_name ?t = ''find_symbol''" by (simp add: PlaceholderTool_def)
  have d: "tool_description ?t = ''second''" by (simp add: PlaceholderTool_def)
  have h: "get_tool ?reg (tool_name ?t) \<noteq> None"
    by (simp add: n get_tool_def dict_get_def tools_ToolRegistry_init builtin_tools_def)
  have l: "length (list_tools ?reg) = 11"
    by (simp add: list_tools_def dict_keys_def tools_ToolRegistry_init builtin_tools_def)
  from register_tool_twice [OF h] h l show ?thesis by (simp add: n d)
qed

text \<open>
  C10. A freshly constructed registry holds exactly the eleven built-in placeholder tools:
  \<^verbatim>\<open>list_tools\<close> returns their names in the order of registration, and
  \<^verbatim>\<open>get_tool\<close> finds, for each of the names, the tool of that name with the built-in
  description.
\<close>

theorem fresh_registry_builtin_tools:
  "list_tools (ToolRegistry_init py_str) =
     [''find_symbol'', ''get_symbols_overview'', ''find_referencing_symbols'',
      ''search_for_pattern'', ''list_dir'', ''find_file'', ''edit_symbol'', ''create_file'',
      ''delete_file'', ''analyze_code'', ''generate_report'']
   \<and> map (\<lambda>n. map_option tool_name (get_tool (ToolRegistry_init py_str) n))
         (list_tools (ToolRegistry_init py_str))
       = map Some (list_tools (ToolRegistry_init py_str))
   \<and> map (\<lambda>n. map_option tool_description (get_tool (ToolRegistry_init py_str) n))
         (map fst builtin_tools)
       = map (Some \<circ> snd) builtin_tools
   \<and> length (list_tools (ToolRegistry_init py_str)) = 11"
  by (simp add: list_tools_def dict_keys_def get_tool_def dict_get_def tools_ToolRegistry_init
      builtin_tools_def tool_name_PlaceholderTool tool_description_PlaceholderTool)

section \<open>Properties of parameter validation\<close>







section \<open>Properties of the handler and of the loaders\<close>

text \<open>
  C7. When the executor of the tool raises, the handler returns the text
  \<^verbatim>\<open>Error: \<close> followed by the exception's message and writes one record at level
  ERROR naming the tool; and whatever the arguments, a call of the handler ends in a
  returned string, never in an exception. (The exceptions modelled are the instances of
  \<^verbatim>\<open>Exception\<close>, which is what the handler's \<^verbatim>\<open>except\<close> clause names.)
\<close>

theorem mcp_tool_wrapper_catches:
  assumes "execute tool (request_context agent) kwargs = Inl e"
  shows "mcp_tool_wrapper py_str request_context tool agent kwargs =
           (Inr (''Error: '' @ exc_str e),
            [(ERROR, ''Error executing tool '' @ tool_name tool @ '': '' @ exc_str e)])
       \<and> (\<forall>kwargs'. \<exists>payload.
             fst (mcp_tool_wrapper py_str request_context tool agent kwargs') = Inr payload)"
  using assms by (auto simp: mcp_tool_wrapper_def split: sum.splits)

theorem mcp_tool_wrapper_catches_witness:
  "mcp_tool_wrapper (\<lambda>v. []) (\<lambda>a. ())
      \<lparr>tool_name = ''boom'', tool_description = ''always fails'', parameters = [],
       execute = (\<lambda>c kw. Inl (RuntimeError ''kaput''))\<rparr>
      (SerenaAgent_init (\<lambda>v. []) analysis_config)
      [(''query'', PStr ''x'')]
   = (Inr ''Error: kaput'', [(ERROR, ''Error executing tool boom: kaput'')])"
  using mcp_tool_wrapper_catches [of
      "\<lparr>tool_name = ''boom'', tool_description = ''always fails'', parameters = [],
       execute = (\<lambda>c kw. Inl (RuntimeError ''kaput''))\<rparr>" "\<lambda>a. ()" _ _ "RuntimeError ''kaput''" "\<lambda>v. []"]
  by simp

text \<open>
  The loaders. When \<^verbatim>\<open>exists()\<close> returns, a name that is no built-in preset and for
  which no JSON file can be loaded (no such file, another suffix, or a file whose reading
  or construction raises) gives the built-in context "default", or the built-in mode
  "interactive", and the last record logged is the warning that says so.
\<close>

lemma load_falls_back_when_exists_returns:
  "(dict_get builtin_contexts c = None \<and> path_exists env c = Inr found \<and>
      \<not> (found \<and> path_suffix env c = ''.json'' \<and> (\<exists>x. read_context_file env c = Inr x))
     \<longrightarrow> fst (SerenaAgentContext_load env (Name c)) = Inr default_context
         \<and> ctx_name default_context = ''default''
         \<and> last (snd (SerenaAgentContext_load env (Name c)))
             = (WARNING, ''Context '' @ quoted c @ '' not found, using default''))
 \<and> (dict_get builtin_modes m = None \<and> path_exists env m = Inr found' \<and>
      \<not> (found' \<and> path_suffix env m = ''.json'' \<and> (\<exists>x. read_mode_file env m = Inr x))
     \<longrightarrow> fst (SerenaAgentMode_load env (Name m)) = Inr interactive_mode
         \<and> mode_name interactive_mode = ''interactive''
         \<and> last (snd (SerenaAgentMode_load env (Name m)))
             = (WARNING, ''Mode '' @ quoted m @ '' not found, using interactive''))"
proof -
  have dn: "ctx_name default_context = ''default''"
    by (simp add: default_context_def builtin_contexts_def dict_get_def)
  have mn: "mode_name interactive_mode = ''interactive''"
    by (simp add: interactive_mode_def builtin_modes_def dict_get_def)
  show ?thesis
    by (auto simp: dn mn Let_def split: sum.splits)
qed

lemma malformed_file_falls_back:
  "SerenaAgentContext_load malformed_files (Name ''broken.json'')
     = (Inr default_context,
        [(WARNING, ''Failed to load context from broken.json: Expecting value: line 1 column 1 (char 0)''),
         (WARNING, ''Context '' @ quoted ''broken.json'' @ '' not found, using default'')])"
  by (simp add: builtin_contexts_def dict_get_def malformed_files_def)

lemma dict_get_None_iff: "dict_get d k = None \<longleftrightarrow> k \<notin> set (map fst d)"
  by (simp add: dict_get_def map_of_eq_None_iff)

lemma long_name_not_builtin:
  "dict_get builtin_contexts long_name = None \<and> dict_get builtin_modes long_name = None"
proof -
  have l: "length long_name = 305" by (simp add: long_name_def)
  have "\<forall>k\<in>set (map fst builtin_contexts). length k \<noteq> 305"
    by (simp add: builtin_contexts_def)
  with l have "long_name \<notin> set (map fst builtin_contexts)" by blast
  moreover have "\<forall>k\<in>set (map fst builtin_modes). length k \<noteq> 305"
    by (simp add: builtin_modes_def)
  with l have "long_name \<notin> set (map fst builtin_modes)" by blast
  ultimately show ?thesis by (simp add: dict_get_None_iff)
qed

text \<open>
  C9 does not hold of the code. The name of 300 letters \<open>a\<close> followed by
  \<^verbatim>\<open>.json\<close> is no preset; \<^verbatim>\<open>Path(name).exists()\<close> is evaluated before the
  \<^verbatim>\<open>try\<close> block and raises \<^verbatim>\<open>OSError\<close> (file name too long), and the error leaves
  \<^verbatim>\<open>SerenaAgentContext.load\<close> and \<^verbatim>\<open>SerenaAgentMode.load\<close>: no warning is logged
  and no default is returned.
\<close>

theorem load_raises_when_exists_raises:
  "SerenaAgentContext_load long_name_files (Name long_name) = (Inl (name_too_long long_name), [])
   \<and> SerenaAgentMode_load long_name_files (Name long_name) = (Inl (name_too_long long_name), [])
   \<and> dict_get builtin_contexts long_name = None
   \<and> dict_get builtin_modes long_name = None"
proof -
  have l: "length long_name = 305" by (simp add: long_name_def)
  then have "path_exists long_name_files long_name = Inl (name_too_long long_name)"
    by (simp add: long_name_files_def)
  with long_name_not_builtin show ?thesis by simp
qed

section \<open>Which tools a session exposes\<close>

lemma consistent_names:
  "list_all (\<lambda>e. tool_name (snd e) = fst e) d \<Longrightarrow> map tool_name (map snd d) = map fst d"
  by (induction d) auto

lemma fresh_registry_consistent: "registry_consistent (ToolRegistry_init py_str)"
  by (simp add: registry_consistent_def tools_ToolRegistry_init builtin_tools_def
      tool_name_PlaceholderTool)

lemma available_tool_names:
  "map tool_name (get_available_tools (SerenaAgent_init py_str cfg)) = map fst builtin_tools"
  by (simp add: get_available_tools_def dict_values_def SerenaAgent_init_def
      tools_ToolRegistry_init builtin_tools_def tool_name_PlaceholderTool)

text \<open>
  The sanitizer leaves the descriptor of a tool as it is (none of its three keys is one the
  walk descends into), so \<^verbatim>\<open>_create_mcp_tool\<close> always reaches the decorator and raises
  there, and \<^verbatim>\<open>_register_tools\<close> raises as soon as there is a tool.
\<close>

lemma sanitize_get_schema: "sanitize_for_openai_tools (get_schema tool) = Inr (get_schema tool)"
  by (simp add: sanitize_for_openai_tools_def get_schema_def handle_type_def handle_enum_def
      dict_get_def)

lemma create_mcp_tool_raises:
  "create_mcp_tool py_str request_context tool agent openai_tool_compatible = Inl mcp_unbound"
  by (simp add: create_mcp_tool_def sanitize_get_schema)

lemma register_all_raises:
  "ts \<noteq> [] \<Longrightarrow> register_all py_str request_context agent oc ts mcp = Inl mcp_unbound"
  by (cases ts) (simp_all add: create_mcp_tool_raises)

lemma register_all_any_agent:
  "register_all py_str request_context agent oc ts mcp
     = register_all py_str request_context agent' oc ts mcp"
  by (cases ts) (simp_all add: create_mcp_tool_raises)

lemma server_config_full: "server_config no_files (Name ''full'') None = Inr full_session_config"
  by (simp add: server_config_def dict_get_def builtin_contexts_def builtin_modes_def
      DEFAULT_MODES_def full_session_config_def full_context_def interactive_mode_def
      editing_mode_def)

text \<open>
  C1, as stated, fails. In the session \<^verbatim>\<open>create_mcp_server\<close> builds for the context
  "full" (modes "interactive" and "editing") the resolver of the specification makes
  \<open>edit_symbol\<close>, \<open>create_file\<close> and \<open>delete_file\<close> visible and hides \<open>list_dir\<close>.
  The code hands all registered tools to \<^verbatim>\<open>_register_tools\<close>, \<open>list_dir\<close> among them,
  and the call ends in the \<^verbatim>\<open>NameError\<close> of \<^verbatim>\<open>_create_mcp_tool\<close>: no server with
  handlers for the visible set, answering "tool not found" for \<open>list_dir\<close>, is created.
\<close>

theorem hidden_tool_handed_to_adapter:
  "server_config no_files (Name ''full'') None = Inr full_session_config
   \<and> ''list_dir'' \<in> set (list_tools (tool_registry
        (SerenaAgent_init (\<lambda>v. []) full_session_config :: unit SerenaAgent)))
   \<and> spec_resolve
        (tool_registry (SerenaAgent_init (\<lambda>v. []) full_session_config :: unit SerenaAgent))
        full_context [interactive_mode, editing_mode]
       = [''edit_symbol'', ''create_file'', ''delete_file'']
   \<and> ''list_dir'' \<in> set (map tool_name (get_available_tools
        (SerenaAgent_init (\<lambda>v. []) full_session_config :: unit SerenaAgent)))
   \<and> (create_mcp_server no_files (\<lambda>v. []) (\<lambda>a. ()) (Name ''full'') None False
        :: py_exc + FastMCP) = Inl mcp_unbound"
proof -
  let ?A = "SerenaAgent_init (\<lambda>v. []) full_session_config :: unit SerenaAgent"
  have l: "list_tools (tool_registry ?A) = map fst builtin_tools"
    by (simp add: SerenaAgent_init_def list_tools_def dict_keys_def tools_ToolRegistry_init
        builtin_tools_def)
  have r: "spec_resolve (tool_registry ?A) full_context [interactive_mode, editing_mode]
       = [''edit_symbol'', ''create_file'', ''delete_file'']"
    by (simp add: spec_resolve_def l builtin_tools_def full_context_def interactive_mode_def
        editing_mode_def dict_get_def builtin_contexts_def builtin_modes_def)
  have a: "map tool_name (get_available_tools ?A) = map fst builtin_tools"
    by (rule available_tool_names)
  then have "get_available_tools ?A \<noteq> []" by (auto simp: builtin_tools_def)
  then have "register_tools (\<lambda>v. []) (\<lambda>a. ()) FastMCP_init ?A False = Inl mcp_unbound"
    by (simp add: register_tools_def register_all_raises)
  then have c: "(create_mcp_server no_files (\<lambda>v. []) (\<lambda>a. ()) (Name ''full'') None False
        :: py_exc + FastMCP) = Inl mcp_unbound"
    by (simp add: create_mcp_server_def server_config_full)
  from server_config_full l r a c show ?thesis by (simp add: builtin_tools_def)
qed

text \<open>
  C1, amended. The adapter does not filter by policy. The tools \<^verbatim>\<open>_register_tools\<close>
  takes from the agent to bind are all the tools of the registry, in the order of the
  raw listing, and neither this list nor the outcome of \<^verbatim>\<open>_register_tools\<close> depends
  on the agent's context or modes.
\<close>

theorem adapter_is_given_whole_registry:
  assumes "registry_consistent (tool_registry agent)"
  shows "map tool_name (get_available_tools agent) = list_tools (tool_registry agent)
       \<and> get_available_tools (agent\<lparr>agent_context := c, agent_modes := ms\<rparr>)
           = get_available_tools agent
       \<and> register_tools py_str request_context mcp
            (agent\<lparr>agent_context := c, agent_modes := ms\<rparr>) oc
           = register_tools py_str request_context mcp agent oc"
proof -
  from assms have "list_all (\<lambda>e. tool_name (snd e) = fst e) (tools (tool_registry agent))"
    by (simp add: registry_consistent_def)
  from consistent_names [OF this]
  have "map tool_name (get_available_tools agent) = list_tools (tool_registry agent)"
    by (simp only: get_available_tools_def dict_values_def list_tools_def dict_keys_def)
  moreover have g: "get_available_tools (agent\<lparr>agent_context := c, agent_modes := ms\<rparr>)
           = get_available_tools agent"
    by (simp add: get_available_tools_def)
  moreover have "register_tools py_str request_context mcp
            (agent\<lparr>agent_context := c, agent_modes := ms\<rparr>) oc
           = register_tools py_str request_context mcp agent oc"
    unfolding register_tools_def g by (rule register_all_any_agent)
  ultimately show ?thesis by blast
qed

theorem adapter_is_given_whole_registry_witness:
  "registry_consistent (tool_registry
      (SerenaAgent_init (\<lambda>v. []) full_session_config :: unit SerenaAgent))
   \<and> map tool_name (get_available_tools
        (SerenaAgent_init (\<lambda>v. []) full_session_config :: unit SerenaAgent))
       = [''find_symbol'', ''get_symbols_overview'', ''find_referencing_symbols'',
          ''search_for_pattern'', ''list_dir'', ''find_file'', ''edit_symbol'', ''create_file'',
          ''delete_file'', ''analyze_code'', ''generate_report'']"
proof -
  let ?A = "SerenaAgent_init (\<lambda>v. []) full_session_config :: unit SerenaAgent"
  have c: "registry_consistent (tool_registry ?A)"
    by (simp add: SerenaAgent_init_def fresh_registry_consistent)
  have l: "list_tools (tool_registry ?A)
       = [''find_symbol'', ''get_symbols_overview'', ''find_referencing_symbols'',
          ''search_for_pattern'', ''list_dir'', ''find_file'', ''edit_symbol'', ''create_file'',
          ''delete_file'', ''analyze_code'', ''generate_report'']"
    by (simp add: SerenaAgent_init_def list_tools_def dict_keys_def tools_ToolRegistry_init
        builtin_tools_def)
  from adapter_is_given_whole_registry [OF c, THEN conjunct1] c l show ?thesis by simp
qed

text \<open>
  C2, as stated, fails in its second half. With the mode "analysis" active, which
  disables \<open>edit_symbol\<close>, the agent's available tools still contain \<open>edit_symbol\<close>.
\<close>

theorem disabled_tool_still_available:
  "''edit_symbol'' \<in> set (disabled_tools analysis_mode)
   \<and> analysis_mode \<in> set (agent_modes
        (SerenaAgent_init (\<lambda>v. []) analysis_config :: unit SerenaAgent))
   \<and> ''edit_symbol'' \<in> set (map tool_name
        (get_available_tools (SerenaAgent_init (\<lambda>v. []) analysis_config :: unit SerenaAgent)))"
proof -
  let ?A = "SerenaAgent_init (\<lambda>v. []) analysis_config :: unit SerenaAgent"
  have d: "''edit_symbol'' \<in> set (disabled_tools analysis_mode)"
    by (simp add: analysis_mode_def dict_get_def builtin_modes_def)
  have m: "analysis_mode \<in> set (agent_modes ?A)"
    by (simp add: analysis_config_def SerenaAgent_init_def)
  have a: "''edit_symbol'' \<in> set (map tool_name (get_available_tools ?A))"
    by (simp only: available_tool_names) (simp add: builtin_tools_def)
  from d m a show ?thesis by simp
qed

text \<open>
  C2, amended. A name in a mode's \<open>disabled_tools\<close> is never enabled according to
  \<^verbatim>\<open>is_tool_enabled\<close> of that mode, whatever its \<open>enabled_tools\<close> hold. The tools an
  agent makes available are not computed from its modes: with the mode active they are the
  eleven built-in tools of the fresh registry.
\<close>

theorem disabled_tool_not_enabled:
  assumes "x \<in> set (disabled_tools m)"
  shows "\<not> is_tool_enabled m x
       \<and> map tool_name (get_available_tools
            (SerenaAgent_init py_str (cfg\<lparr>config_modes := m # ms\<rparr>)))
           = map fst builtin_tools"
  using assms by (simp add: is_tool_enabled_def available_tool_names)

theorem disabled_tool_not_enabled_witness:
  "''edit_symbol'' \<in> set (disabled_tools analysis_mode)
   \<and> \<not> is_tool_enabled analysis_mode ''edit_symbol''
   \<and> is_tool_enabled editing_mode ''edit_symbol''"
proof -
  have d: "''edit_symbol'' \<in> set (disabled_tools analysis_mode)"
    by (simp add: analysis_mode_def dict_get_def builtin_modes_def)
  have e: "is_tool_enabled editing_mode ''edit_symbol''"
    by (simp add: editing_mode_def dict_get_def builtin_modes_def is_tool_enabled_def)
  from disabled_tool_not_enabled [OF d, THEN conjunct1] d e show ?thesis by simp
qed

section \<open>Properties of the sanitizer\<close>

lemma type_default_multipleOf:
  "dict_get (default_multipleOf d) ''type'' = dict_get d ''type''"
  by (simp add: default_multipleOf_def dict_get_dict_set_other)

lemma handle_type_list:
  assumes "dict_get d ''type'' = Some (PList t)"
  shows "handle_type d =
     (let t2 = map (\<lambda>x. if x \<noteq> PStr ''integer'' then x else PStr ''number'')
                 (filter (\<lambda>x. x \<noteq> PStr ''null'') t);
          t3 = (if t2 = [] then [PStr ''object''] else t2);
          nv = (if length t3 = 1 then hd t3 else PList t3)
      in if PStr ''integer'' \<in> set t \<or> PStr ''number'' \<in> set t3
         then default_multipleOf (dict_set d ''type'' nv) else dict_set d ''type'' nv)"
  using assms unfolding handle_type_def by (simp add: Let_def)

lemma handle_type_not_integer:
  "dict_get (handle_type d) ''type'' \<noteq> Some (PStr ''integer'')"
proof (cases "dict_get d ''type''")
  case None
  then show ?thesis by (simp add: handle_type_def)
next
  case (Some ty)
  show ?thesis
  proof (cases ty)
    case (PStr s)
    with Some show ?thesis
      by (simp add: handle_type_def type_default_multipleOf dict_get_dict_set_same)
  next
    case (PList t)
    define t2 where "t2 = map (\<lambda>x. if x \<noteq> PStr ''integer'' then x else PStr ''number'')
                      (filter (\<lambda>x. x \<noteq> PStr ''null'') t)"
    define t3 where "t3 = (if t2 = [] then [PStr ''object''] else t2)"
    define nv where "nv = (if length t3 = 1 then hd t3 else PList t3)"
    have "PStr ''integer'' \<notin> set t2" by (auto simp: t2_def)
    then have "PStr ''integer'' \<notin> set t3" by (simp add: t3_def)
    moreover have "t3 \<noteq> []" by (simp add: t3_def)
    ultimately have nv: "nv \<noteq> PStr ''integer''"
      by (cases t3) (auto simp: nv_def)
    have "handle_type d =
        (if PStr ''integer'' \<in> set t \<or> PStr ''number'' \<in> set t3
         then default_multipleOf (dict_set d ''type'' nv) else dict_set d ''type'' nv)"
      using handle_type_list [of d t] Some PList
      by (simp add: Let_def t2_def t3_def nv_def)
    with nv show ?thesis
      by (simp add: type_default_multipleOf dict_get_dict_set_same)
  qed (simp_all add: handle_type_def Some)
qed

text \<open>The two outcomes of a successful enum block.\<close>

lemma handle_enum_cases:
  assumes "handle_enum d = Inr n"
  obtains (unchanged) "n = d"
    "\<And>vals. dict_get d ''enum'' = Some (PList vals) \<Longrightarrow> vals = [] \<or> \<not> list_all is_int vals"
  | (floats) vals floats where "dict_get d ''enum'' = Some (PList vals)" "vals \<noteq> []"
      "list_all is_int vals" "map_exc py_float vals = Inr floats"
      "n = (if dict_get (dict_set d ''enum'' (PList floats)) ''type'' = Some (PStr ''integer'')
            then default_multipleOf
                   (dict_set (dict_set d ''enum'' (PList floats)) ''type'' (PStr ''number''))
            else dict_set d ''enum'' (PList floats))"
proof (cases "dict_get d ''enum''")
  case None
  with assms have "n = d" by (simp add: handle_enum_def)
  with None unchanged show ?thesis by simp
next
  case (Some ev)
  show ?thesis
  proof (cases ev)
    case (PList vals)
    show ?thesis
    proof (cases "vals \<noteq> [] \<and> list_all is_int vals")
      case False
      with assms Some PList have "n = d" by (auto simp: handle_enum_def)
      with False Some PList unchanged show ?thesis by auto
    next
      case True
      with assms Some PList obtain fl where f: "map_exc py_float vals = Inr fl"
        by (cases "map_exc py_float vals") (simp_all add: handle_enum_def)
      with assms Some PList True
      have "n = (if dict_get (dict_set d ''enum'' (PList fl)) ''type'' = Some (PStr ''integer'')
            then default_multipleOf
                   (dict_set (dict_set d ''enum'' (PList fl)) ''type'' (PStr ''number''))
            else dict_set d ''enum'' (PList fl))"
        by (simp add: handle_enum_def Let_def split: if_splits)
      with floats [of vals fl] Some PList True f show ?thesis by simp
    qed
  next
    case PNone
    with assms Some have "n = d" by (simp add: handle_enum_def)
    with Some PNone unchanged show ?thesis by simp
  next
    case (PBool b)
    with assms Some have "n = d" by (simp add: handle_enum_def)
    with Some PBool unchanged show ?thesis by simp
  next
    case (PInt i)
    with assms Some have "n = d" by (simp add: handle_enum_def)
    with Some PInt unchanged show ?thesis by simp
  next
    case (PFloat r)
    with assms Some have "n = d" by (simp add: handle_enum_def)
    with Some PFloat unchanged show ?thesis by simp
  next
    case (PStr s)
    with assms Some have "n = d" by (simp add: handle_enum_def)
    with Some PStr unchanged show ?thesis by simp
  next
    case (PDict x)
    with assms Some have "n = d" by (simp add: handle_enum_def)
    with Some PDict unchanged show ?thesis by simp
  qed
qed

lemma handle_enum_after_type:
  assumes "handle_enum d = Inr n" and "dict_get d ''type'' \<noteq> Some (PStr ''integer'')"
  obtains (unchanged) "n = d"
    "\<And>vals. dict_get d ''enum'' = Some (PList vals) \<Longrightarrow> vals = [] \<or> \<not> list_all is_int vals"
  | (floats) vals floats where "dict_get d ''enum'' = Some (PList vals)" "vals \<noteq> []"
      "list_all is_int vals" "map_exc py_float vals = Inr floats"
      "n = dict_set d ''enum'' (PList floats)"
  using assms(1)
proof (cases rule: handle_enum_cases)
  case unchanged
  with that(1) show ?thesis by blast
next
  case (floats vals fl)
  from assms(2) have "dict_get (dict_set d ''enum'' (PList fl)) ''type'' \<noteq> Some (PStr ''integer'')"
    by (simp add: dict_get_dict_set_other)
  with floats that(2) show ?thesis by simp
qed

lemma handle_enum_type:
  assumes "handle_enum d = Inr n" and "dict_get d ''type'' \<noteq> Some (PStr ''integer'')"
  shows "dict_get n ''type'' = dict_get d ''type''"
  using assms
  by (cases rule: handle_enum_after_type) (simp_all add: dict_get_dict_set_other)

lemma walk_list_map_exc: "walk_list xs = map_exc walk xs"
  by (induction xs) (auto split: sum.splits)

lemma map_exc_in:
  "map_exc f xs = Inr ys \<Longrightarrow> y \<in> set ys \<Longrightarrow> \<exists>x\<in>set xs. f x = Inr y"
  by (induction xs arbitrary: ys) (auto split: sum.splits)

lemma hashed_same: "hashed v = Inr h \<Longrightarrow> h = v"
  by (cases v) auto

lemma differ_needs_integer:
  assumes "differ_by_integer_number xs' = Inr True"
  shows "\<exists>d. PDict d \<in> set xs' \<and> dict_get d ''type'' = Some (PStr ''integer'')"
proof -
  from assms obtain types hs where t: "map_exc item_type xs' = Inr types"
    and h: "map_exc hashed types = Inr hs" and s: "set hs = {PStr ''integer'', PStr ''number''}"
    by (auto simp: differ_by_integer_number_def split: sum.splits)
  from s have "PStr ''integer'' \<in> set hs" by simp
  from map_exc_in [OF h this] hashed_same have "PStr ''integer'' \<in> set types" by blast
  from map_exc_in [OF t this] obtain x' where x': "x' \<in> set xs'"
    and it: "item_type x' = Inr (PStr ''integer'')" by blast
  from it obtain d where "x' = PDict d" "dict_get d ''type'' = Some (PStr ''integer'')"
    by (cases x') (auto split: option.splits)
  with x' show ?thesis by blast
qed

text \<open>One step of the loop, when the simplification is not taken.\<close>

lemma walk_items_step:
  assumes "walk_items node ((key, value) # rest) = Inr r"
    and "\<And>xs xs'. value = PList xs \<Longrightarrow> walk_list xs = Inr xs'
           \<Longrightarrow> differ_by_integer_number xs' \<noteq> Inr True"
  obtains (skip) "walk_items node rest = Inr r"
  | (assign) v where "key \<noteq> ''type''" "walk_items (dict_set node key v) rest = Inr r"
proof (cases "key \<in> {''properties'', ''additionalProperties'', ''items''}")
  case True
  then have k: "key \<noteq> ''type''" by auto
  show ?thesis
  proof (cases "value")
    case (PDict d)
    with assms(1) True obtain v where "walk_items (dict_set node key v) rest = Inr r"
      by (cases "walk (PDict d)") simp_all
    with k assign show ?thesis by blast
  next
    case (PList xs)
    with assms(1) True obtain xs' where "walk_items (dict_set node key (PList xs')) rest = Inr r"
      by (cases "walk_list xs") simp_all
    with k assign show ?thesis by blast
  qed (use assms(1) True skip in simp_all)
next
  case False
  show ?thesis
  proof (cases "key \<in> {''oneOf'', ''anyOf'', ''allOf''}")
    case C: True
    then have k: "key \<noteq> ''type''" by auto
    show ?thesis
    proof (cases "value")
      case (PList xs)
      with assms(1) False C obtain xs' where xs': "walk_list xs = Inr xs'"
        by (cases "walk_list xs") simp_all
      from assms(2) [OF PList xs'] have nd: "differ_by_integer_number xs' \<noteq> Inr True" .
      have "walk_items (dict_set node key (PList xs')) rest = Inr r"
      proof (cases "key \<in> {''oneOf'', ''anyOf''} \<and> length xs' = 2")
        case True
        with assms(1) False C PList xs' nd show ?thesis
          by (cases "differ_by_integer_number xs'") (simp_all add: Let_def split: if_splits)
      next
        case F: False
        with assms(1) False C PList xs' show ?thesis
          by (simp add: Let_def split: if_splits)
      qed
      with k assign show ?thesis by blast
    qed (use assms(1) False C skip in simp_all)
  next
    case F2: False
    with assms(1) False skip show ?thesis by simp
  qed
qed

lemma rsize_entry: "(k, v) \<in> set d \<Longrightarrow> rsize v < esize d"
  by (induction d) (auto simp: esize_def simp del: rsize.simps)

lemma rsize_elem: "x \<in> set xs \<Longrightarrow> rsize x < rsize (PList xs)"
  by (induction xs) (auto simp del: rsize.simps simp: rsize_PList lsize_def)

lemma walk_items_type:
  assumes "walk_items node es = Inr r"
    and "dict_get node ''type'' \<noteq> Some (PStr ''integer'')"
    and "\<forall>k xs xs'. (k, PList xs) \<in> set es \<longrightarrow> walk_list xs = Inr xs'
           \<longrightarrow> differ_by_integer_number xs' \<noteq> Inr True"
  shows "dict_get r ''type'' \<noteq> Some (PStr ''integer'')"
  using assms
proof (induction es arbitrary: node)
  case Nil
  then show ?case by simp
next
  case (Cons e es)
  obtain key "value" where e: "e = (key, value)" by (cases e)
  have nd: "\<forall>k xs xs'. (k, PList xs) \<in> set es \<longrightarrow> walk_list xs = Inr xs'
           \<longrightarrow> differ_by_integer_number xs' \<noteq> Inr True"
    using Cons.prems(3) by simp
  have here: "\<And>xs xs'. value = PList xs \<Longrightarrow> walk_list xs = Inr xs'
           \<Longrightarrow> differ_by_integer_number xs' \<noteq> Inr True"
    using Cons.prems(3) unfolding e by (meson list.set_intros(1))
  show ?case
  proof (rule walk_items_step [OF Cons.prems(1) [unfolded e] here])
    assume skip: "walk_items node es = Inr r"
    from Cons.IH [OF skip Cons.prems(2) nd] show ?thesis .
  next
    fix v
    assume k: "key \<noteq> ''type''" and w: "walk_items (dict_set node key v) es = Inr r"
    from k Cons.prems(2)
    have "dict_get (dict_set node key v) ''type'' \<noteq> Some (PStr ''integer'')"
      by (simp add: dict_get_dict_set_other)
    from Cons.IH [OF w this nd] show ?thesis .
  qed
qed

lemma walk_type_not_integer:
  "walk v = Inr (PDict r) \<Longrightarrow> dict_get r ''type'' \<noteq> Some (PStr ''integer'')"
proof (induction v arbitrary: r rule: measure_induct_rule [where f = rsize])
  case (less v)
  show ?case
  proof (cases v)
    case (PDict d)
    with less.prems obtain n where n: "handle_enum (handle_type d) = Inr n"
      and w: "walk_items n n = Inr r"
      by (auto split: sum.splits)
    from handle_enum_type [OF n handle_type_not_integer] handle_type_not_integer [of d]
    have t: "dict_get n ''type'' \<noteq> Some (PStr ''integer'')" by simp
    have nd: "differ_by_integer_number xs' \<noteq> Inr True"
      if "(k, PList xs) \<in> set n" and "walk_list xs = Inr xs'" for k xs xs'
    proof
      assume "differ_by_integer_number xs' = Inr True"
      from differ_needs_integer [OF this] obtain d' where d': "PDict d' \<in> set xs'"
        and ty: "dict_get d' ''type'' = Some (PStr ''integer'')" by blast
      from that(2) d' map_exc_in [of walk xs xs' "PDict d'"]
      obtain x where x: "x \<in> set xs" and wx: "walk x = Inr (PDict d')"
        by (auto simp: walk_list_map_exc)
      from rsize_elem [OF x] rsize_entry [OF that(1)] esize_sanitized_node [OF n]
      have "rsize x < rsize v" by (simp add: PDict del: rsize.simps)
      from less.IH [OF this wx] ty show False by simp
    qed
    from nd have "\<forall>k xs xs'. (k, PList xs) \<in> set n \<longrightarrow> walk_list xs = Inr xs'
           \<longrightarrow> differ_by_integer_number xs' \<noteq> Inr True" by blast
    from walk_items_type [OF w t this] show ?thesis .
  qed (use less.prems in simp_all)
qed

lemma walk_never_differs:
  assumes "walk_list xs = Inr xs'"
  shows "differ_by_integer_number xs' \<noteq> Inr True"
proof
  assume "differ_by_integer_number xs' = Inr True"
  from differ_needs_integer [OF this] obtain d where d: "PDict d \<in> set xs'"
    and ty: "dict_get d ''type'' = Some (PStr ''integer'')" by blast
  from assms d map_exc_in [of walk xs xs' "PDict d"] obtain x where "walk x = Inr (PDict d)"
    by (auto simp: walk_list_map_exc)
  from walk_type_not_integer [OF this] ty show False by simp
qed

text \<open>
  With the simplification out of the way, one step of the loop computes a new value for the
  entry and, for the keys it descends into, assigns it.
\<close>

definition descends :: "string \<Rightarrow> pyval \<Rightarrow> bool" where
  "descends key v =
     (case v of
        PDict d \<Rightarrow> key \<in> {''properties'', ''additionalProperties'', ''items''}
      | PList xs \<Rightarrow> key \<in> {''properties'', ''additionalProperties'', ''items'',
                             ''oneOf'', ''anyOf'', ''allOf''}
      | _ \<Rightarrow> False)"

definition walk_entry :: "string \<Rightarrow> pyval \<Rightarrow> py_exc + pyval" where
  "walk_entry key v =
     (if \<not> descends key v then Inr v
      else (case v of
              PList xs \<Rightarrow>
                (case walk_list xs of
                   Inl e \<Rightarrow> Inl e
                 | Inr xs' \<Rightarrow>
                     if key \<in> {''oneOf'', ''anyOf''} \<and> length xs' = 2
                     then (case differ_by_integer_number xs' of
                             Inl e \<Rightarrow> Inl e
                           | Inr b \<Rightarrow> Inr (PList xs'))
                     else Inr (PList xs'))
            | _ \<Rightarrow> walk v))"

lemma walk_items_Cons:
  "walk_items node ((key, v) # rest) =
     (case walk_entry key v of
        Inl e \<Rightarrow> Inl e
      | Inr v' \<Rightarrow> walk_items (if descends key v then dict_set node key v' else node) rest)"
proof (cases "descends key v")
  case False
  then show ?thesis
    by (cases v) (auto simp: walk_entry_def descends_def)
next
  case True
  show ?thesis
  proof (cases v)
    case (PDict d)
    with True show ?thesis
      by (cases "walk (PDict d)") (auto simp: walk_entry_def descends_def)
  next
    case (PList xs)
    show ?thesis
    proof (cases "walk_list xs")
      case (Inl e)
      with True PList show ?thesis
        by (auto simp: walk_entry_def descends_def)
    next
      case (Inr xs')
      note nd = walk_never_differs [OF Inr]
      show ?thesis
      proof (cases "key \<in> {''oneOf'', ''anyOf''} \<and> length xs' = 2")
        case T: True
        with True PList Inr nd show ?thesis
          by (cases "differ_by_integer_number xs'")
             (auto simp: walk_entry_def Let_def)
      next
        case F: False
        with True PList Inr show ?thesis
          by (auto simp: walk_entry_def descends_def Let_def)
      qed
    qed
  qed (use True in \<open>simp_all add: descends_def\<close>)
qed

lemma float_of_small_int: "\<bar>v\<bar> < 2 ^ 53 \<Longrightarrow> float_of_int v = Inr (of_int v)"
  by (simp add: float_of_int_def)


text \<open>
  C4 does not hold of the code. The branches of a \<^verbatim>\<open>oneOf\<close> are walked before their
  types are compared, and the walk turns the type \<^verbatim>\<open>integer\<close> into \<^verbatim>\<open>number\<close>: the two
  types are never \<^verbatim>\<open>{"integer", "number"}\<close> at the comparison (lemma
  \<open>walk_never_differs\<close>), and the two branches stay.
\<close>

theorem sanitize_oneOf_not_collapsed:
  "sanitize_for_openai_tools
     (PDict [(''oneOf'', PList [PDict [(''type'', PStr ''integer'')],
                                PDict [(''type'', PStr ''number'')]])])
   = Inr (PDict [(''oneOf'', PList [PDict [(''type'', PStr ''number''), (''multipleOf'', PInt 1)],
                                    PDict [(''type'', PStr ''number'')]])])"
  by (simp add: sanitize_for_openai_tools_def handle_type_def handle_enum_def dict_get_def
      default_multipleOf_def dict_contains_def differ_by_integer_number_def)

subsection \<open>Idempotence\<close>

text \<open>
  The schemas for which a second pass changes nothing. \<^verbatim>\<open>json.loads\<close> gives every
  object distinct keys, and in a JSON Schema the members of a \<^verbatim>\<open>type\<close> array are
  strings; \<open>wf_schema\<close> asks, of the objects that \<^verbatim>\<open>walk\<close> visits, that the keys
  are distinct and that a \<^verbatim>\<open>type\<close> array has no array among its members. What lies
  under other keys (\<^verbatim>\<open>default\<close>, \<^verbatim>\<open>const\<close>, the property schemas under
  \<^verbatim>\<open>properties\<close>) is not visited and is left free.
\<close>

fun is_list :: "pyval \<Rightarrow> bool" where
  "is_list (PList xs) = True"
| "is_list v = False"

definition type_ok :: "pydict \<Rightarrow> bool" where
  "type_ok d =
     (case dict_get d ''type'' of
        Some (PList t) \<Rightarrow> list_all (\<lambda>x. \<not> is_list x) t
      | _ \<Rightarrow> True)"

function wf_schema :: "pyval \<Rightarrow> bool" where
  "wf_schema (PDict d) =
     (distinct (map fst d) \<and> type_ok d
      \<and> (\<forall>e\<in>set d. descends (fst e) (snd e) \<longrightarrow> wf_schema (snd e)))"
| "wf_schema (PList xs) = (\<forall>x\<in>set xs. wf_schema x)"
| "wf_schema PNone = True"
| "wf_schema (PBool b) = True"
| "wf_schema (PInt i) = True"
| "wf_schema (PFloat r) = True"
| "wf_schema (PStr s) = True"
  by pat_completeness auto
termination
proof (relation "measure rsize", goal_cases)
  case 1
  show ?case by simp
next
  case (2 d e)
  then have "(fst e, snd e) \<in> set d" by simp
  from rsize_entry [OF this] show ?case by (simp add: rsize_PDict del: rsize.simps)
next
  case (3 xs x)
  from rsize_elem [OF 3] show ?case by simp
qed

text \<open>
  For a dictionary with distinct keys the loop of \<^verbatim>\<open>walk\<close> is an entry-wise map:
  \<open>entry_exc\<close> is its action on one entry.
\<close>

definition entry_exc :: "string \<times> pyval \<Rightarrow> py_exc + string \<times> pyval" where
  "entry_exc e =
     (case walk_entry (fst e) (snd e) of Inl x \<Rightarrow> Inl x | Inr v' \<Rightarrow> Inr (fst e, v'))"

lemma dict_set_here:
  "k \<notin> set (map fst pre) \<Longrightarrow> dict_set (pre @ (k, v) # es) k v' = pre @ (k, v') # es"
  by (induction pre) auto

lemma walk_entry_skip: "\<not> descends k v \<Longrightarrow> walk_entry k v = Inr v"
  by (simp add: walk_entry_def)

lemma walk_items_entries:
  "distinct (map fst (pre @ es)) \<Longrightarrow>
   walk_items (pre @ es) es =
     (case map_exc entry_exc es of Inl e \<Rightarrow> Inl e | Inr es' \<Rightarrow> Inr (pre @ es'))"
proof (induction es arbitrary: pre)
  case Nil
  then show ?case by simp
next
  case (Cons e es)
  obtain k v where e: "e = (k, v)" by (cases e)
  show ?case
  proof (cases "walk_entry k v")
    case (Inl x)
    have "walk_items (pre @ (k, v) # es) ((k, v) # es) = Inl x"
      by (simp only: walk_items_Cons Inl sum.case)
    moreover have "map_exc entry_exc ((k, v) # es) = Inl x"
      by (simp add: entry_exc_def Inl)
    ultimately show ?thesis by (simp add: e del: walk.simps)
  next
    case (Inr v')
    from Cons.prems have notin: "k \<notin> set (map fst pre)" by (auto simp: e)
    have node: "(if descends k v then dict_set (pre @ (k, v) # es) k v' else pre @ (k, v) # es)
                = (pre @ [(k, v')]) @ es"
    proof (cases "descends k v")
      case True
      then show ?thesis by (simp add: dict_set_here [OF notin])
    next
      case False
      with Inr walk_entry_skip [of k v] show ?thesis by simp
    qed
    from Cons.prems have "distinct (map fst ((pre @ [(k, v')]) @ es))" by (auto simp: e)
    from Cons.IH [OF this]
    have "walk_items ((pre @ [(k, v')]) @ es) es =
       (case map_exc entry_exc es of Inl e \<Rightarrow> Inl e | Inr es' \<Rightarrow> Inr ((pre @ [(k, v')]) @ es'))" .
    moreover have "walk_items (pre @ (k, v) # es) ((k, v) # es)
        = walk_items ((pre @ [(k, v')]) @ es) es"
      by (simp only: walk_items_Cons Inr sum.case node)
    moreover have "map_exc entry_exc ((k, v) # es)
        = (case map_exc entry_exc es of Inl e \<Rightarrow> Inl e | Inr es' \<Rightarrow> Inr ((k, v') # es'))"
      by (simp add: entry_exc_def Inr)
    ultimately show ?thesis
      by (cases "map_exc entry_exc es") (simp_all add: e del: walk.simps)
  qed
qed

lemma distinct_dict_set: "distinct (map fst d) \<Longrightarrow> distinct (map fst (dict_set d k v))"
  by (simp add: keys_dict_set dict_get_None_iff)

lemma distinct_default_multipleOf:
  "distinct (map fst d) \<Longrightarrow> distinct (map fst (default_multipleOf d))"
  by (simp add: default_multipleOf_def distinct_dict_set)

lemma distinct_handle_type: "distinct (map fst d) \<Longrightarrow> distinct (map fst (handle_type d))"
proof (cases "dict_get d ''type''")
  case None
  assume "distinct (map fst d)"
  with None show ?thesis by (simp add: handle_type_def)
next
  case (Some ty)
  assume d: "distinct (map fst d)"
  show ?thesis
  proof (cases ty)
    case (PStr s)
    with Some d show ?thesis
      by (simp add: handle_type_def distinct_default_multipleOf distinct_dict_set)
  next
    case (PList t)
    with Some d show ?thesis
      by (simp add: handle_type_list Let_def distinct_default_multipleOf distinct_dict_set)
  qed (simp_all add: handle_type_def Some d)
qed

lemma distinct_handle_enum:
  assumes "handle_enum d = Inr n" and "distinct (map fst d)"
  shows "distinct (map fst n)"
  using assms(1)
proof (cases rule: handle_enum_cases)
  case unchanged
  with assms(2) show ?thesis by simp
next
  case (floats vals fl)
  with assms(2) show ?thesis
    by (simp add: distinct_default_multipleOf distinct_dict_set)
qed

lemma walk_PDict:
  assumes "distinct (map fst d)"
  shows "walk (PDict d) =
     (case handle_enum (handle_type d) of
        Inl e \<Rightarrow> Inl e
      | Inr n \<Rightarrow> (case map_exc entry_exc n of Inl e \<Rightarrow> Inl e | Inr n' \<Rightarrow> Inr (PDict n')))"
proof (cases "handle_enum (handle_type d)")
  case (Inl e)
  then show ?thesis by simp
next
  case (Inr n)
  from distinct_handle_enum [OF Inr distinct_handle_type [OF assms]]
  have "distinct (map fst ([] @ n))" by simp
  from walk_items_entries [OF this] show ?thesis
    by (cases "map_exc entry_exc n") (simp_all add: Inr)
qed

lemma dict_set_same: "dict_get d k = Some v \<Longrightarrow> dict_set d k v = d"
  by (induction d) (auto simp: dict_get_def split: if_splits)

text \<open>
  What the first two blocks of \<^verbatim>\<open>walk\<close> leave behind: a \<^verbatim>\<open>type\<close> and an
  \<^verbatim>\<open>enum\<close> that the same blocks do not touch again.
\<close>

definition type_fixed :: "pydict \<Rightarrow> bool" where
  "type_fixed d =
     (case dict_get d ''type'' of
        Some (PStr s) \<Rightarrow> s \<noteq> ''integer''
      | Some (PList t) \<Rightarrow>
          PStr ''null'' \<notin> set t \<and> PStr ''integer'' \<notin> set t \<and> 2 \<le> length t
          \<and> (PStr ''number'' \<in> set t \<longrightarrow> dict_get d ''multipleOf'' \<noteq> None)
      | _ \<Rightarrow> True)"

definition enum_fixed :: "pydict \<Rightarrow> bool" where
  "enum_fixed d =
     (case dict_get d ''enum'' of
        Some (PList vals) \<Rightarrow> vals = [] \<or> \<not> list_all is_int vals
      | _ \<Rightarrow> True)"

lemma retype_id:
  "PStr ''null'' \<notin> set t \<Longrightarrow> PStr ''integer'' \<notin> set t \<Longrightarrow>
   map (\<lambda>x. if x \<noteq> PStr ''integer'' then x else PStr ''number'')
     (filter (\<lambda>x. x \<noteq> PStr ''null'') t) = t"
  by (induction t) auto

lemma default_multipleOf_present:
  "dict_get d ''multipleOf'' \<noteq> None \<Longrightarrow> default_multipleOf d = d"
  by (simp add: default_multipleOf_def dict_contains_def)

lemma default_multipleOf_contains: "dict_get (default_multipleOf d) ''multipleOf'' \<noteq> None"
  by (simp add: default_multipleOf_def dict_contains_def dict_get_dict_set_same)

lemma type_fixed_handle_type:
  assumes "type_fixed d"
  shows "handle_type d = d"
proof (cases "dict_get d ''type''")
  case None
  then show ?thesis by (simp add: handle_type_def)
next
  case (Some ty)
  show ?thesis
  proof (cases ty)
    case (PStr s)
    with assms Some show ?thesis by (simp add: handle_type_def type_fixed_def)
  next
    case (PList t)
    with assms Some have n: "PStr ''null'' \<notin> set t" and i: "PStr ''integer'' \<notin> set t"
      and l: "2 \<le> length t"
      and m: "PStr ''number'' \<in> set t \<Longrightarrow> dict_get d ''multipleOf'' \<noteq> None"
      by (simp_all add: type_fixed_def)
    from l have ne: "t \<noteq> []" "length t \<noteq> 1" by auto
    have s: "dict_set d ''type'' (PList t) = d"
      using Some PList by (simp add: dict_set_same)
    show ?thesis
      using Some PList i ne m
      by (simp add: handle_type_list retype_id [OF n i] Let_def s default_multipleOf_present)
  qed (simp_all add: handle_type_def Some)
qed

lemma handle_type_type_fixed:
  assumes "type_ok d"
  shows "type_fixed (handle_type d)"
proof (cases "dict_get d ''type''")
  case None
  then show ?thesis by (simp add: handle_type_def type_fixed_def)
next
  case (Some ty)
  show ?thesis
  proof (cases ty)
    case (PStr s)
    with Some show ?thesis
      by (simp add: handle_type_def type_fixed_def type_default_multipleOf dict_get_dict_set_same)
  next
    case (PList t)
    define t2 where "t2 = map (\<lambda>x. if x \<noteq> PStr ''integer'' then x else PStr ''number'')
                      (filter (\<lambda>x. x \<noteq> PStr ''null'') t)"
    define t3 where "t3 = (if t2 = [] then [PStr ''object''] else t2)"
    define nv where "nv = (if length t3 = 1 then hd t3 else PList t3)"
    from assms Some PList have ok: "\<forall>x\<in>set t. \<not> is_list x"
      by (simp add: type_ok_def list_all_iff)
    have i3: "PStr ''integer'' \<notin> set t3" and n3: "PStr ''null'' \<notin> set t3"
      by (auto simp: t3_def t2_def)
    have l3: "\<forall>x\<in>set t3. \<not> is_list x"
      using ok by (auto simp: t3_def t2_def)
    have ne3: "t3 \<noteq> []" by (simp add: t3_def)
    have ht: "handle_type d =
        (if PStr ''integer'' \<in> set t \<or> PStr ''number'' \<in> set t3
         then default_multipleOf (dict_set d ''type'' nv) else dict_set d ''type'' nv)"
      using handle_type_list [of d t] Some PList
      by (simp add: Let_def t2_def t3_def nv_def)
    then have ty: "dict_get (handle_type d) ''type'' = Some nv"
      by (simp add: type_default_multipleOf dict_get_dict_set_same)
    show ?thesis
    proof (cases "length t3 = 1")
      case True
      then have nv: "nv = hd t3" by (simp add: nv_def)
      with ne3 i3 l3 have "nv \<noteq> PStr ''integer''" "\<not> is_list nv"
        by (cases t3; auto)+
      then show ?thesis
        by (cases nv) (simp_all add: type_fixed_def ty)
    next
      case False
      from ne3 have "length t3 \<noteq> 0" by simp
      with False have len: "2 \<le> length t3" by arith
      from False have nv: "nv = PList t3" by (simp add: nv_def)
      have "PStr ''number'' \<in> set t3 \<Longrightarrow> dict_get (handle_type d) ''multipleOf'' \<noteq> None"
        by (simp add: ht default_multipleOf_contains)
      with i3 n3 len show ?thesis
        by (simp add: type_fixed_def ty nv)
    qed
  qed (simp_all add: handle_type_def Some type_fixed_def)
qed

lemma type_fixed_cong:
  "dict_get a ''type'' = dict_get b ''type'' \<Longrightarrow>
   dict_get a ''multipleOf'' = dict_get b ''multipleOf'' \<Longrightarrow> type_fixed a = type_fixed b"
  unfolding type_fixed_def by (simp split: option.splits pyval.splits)

lemma enum_fixed_cong:
  "dict_get a ''enum'' = dict_get b ''enum'' \<Longrightarrow> enum_fixed a = enum_fixed b"
  by (simp add: enum_fixed_def)

lemma enum_fixed_handle_enum:
  assumes "enum_fixed d"
  shows "handle_enum d = Inr d"
proof (cases "dict_get d ''enum''")
  case None
  then show ?thesis by (simp add: handle_enum_def)
next
  case (Some ev)
  with assms show ?thesis
    by (cases ev) (auto simp: handle_enum_def enum_fixed_def)
qed

lemma floats_not_int:
  "map_exc py_float vals = Inr floats \<Longrightarrow> vals \<noteq> [] \<Longrightarrow> list_all is_int vals
   \<Longrightarrow> \<not> list_all is_int floats"
proof (cases vals)
  case Nil
  assume "vals \<noteq> []"
  with Nil show ?thesis by simp
next
  case (Cons v vs)
  assume "map_exc py_float vals = Inr floats"
  with Cons obtain f fs where "py_float v = Inr f" "floats = f # fs"
    by (auto split: sum.splits)
  moreover then have "\<not> is_int f" by (cases v) (auto split: sum.splits)
  ultimately show ?thesis by simp
qed

lemma handle_enum_fixed:
  assumes "handle_enum d = Inr n" and "dict_get d ''type'' \<noteq> Some (PStr ''integer'')"
  shows "enum_fixed n \<and> dict_get n ''type'' = dict_get d ''type''
         \<and> dict_get n ''multipleOf'' = dict_get d ''multipleOf''"
  using assms
proof (cases rule: handle_enum_after_type)
  case unchanged
  then show ?thesis
    by (cases "dict_get d ''enum''") (auto simp: enum_fixed_def split: pyval.splits)
next
  case (floats vals fl)
  from floats_not_int [OF floats(4,2,3)] floats(5) show ?thesis
    by (simp add: enum_fixed_def dict_get_dict_set_same dict_get_dict_set_other)
qed

lemma not_descends:
  "k \<notin> {''properties'', ''additionalProperties'', ''items'', ''oneOf'', ''anyOf'', ''allOf''}
   \<Longrightarrow> \<not> descends k v"
  by (cases v) (auto simp: descends_def)

lemma entries_lookup:
  assumes "map_exc entry_exc n = Inr n'"
    and "k \<notin> {''properties'', ''additionalProperties'', ''items'', ''oneOf'', ''anyOf'', ''allOf''}"
  shows "dict_get n' k = dict_get n k"
  using assms(1)
proof (induction n arbitrary: n')
  case Nil
  then show ?case by simp
next
  case (Cons e n)
  obtain k' v where e: "e = (k', v)" by (cases e)
  from Cons.prems obtain z m where z: "entry_exc e = Inr z"
    and m: "map_exc entry_exc n = Inr m" and nz: "n' = z # m"
    by (auto split: sum.splits)
  from z obtain v' where v': "walk_entry k' v = Inr v'" and zv: "z = (k', v')"
    by (auto simp: e entry_exc_def split: sum.splits)
  from nz zv have n': "n' = (k', v') # m" by simp
  show ?case
  proof (cases "k' = k")
    case True
    with v' walk_entry_skip [OF not_descends [OF assms(2)], of v] have "v' = v" by simp
    with True show ?thesis by (simp add: n' e dict_get_def)
  next
    case False
    with Cons.IH [OF m] show ?thesis by (simp add: n' e dict_get_def)
  qed
qed

lemma entries_keys: "map_exc entry_exc n = Inr n' \<Longrightarrow> map fst n' = map fst n"
proof (induction n arbitrary: n')
  case Nil
  then show ?case by simp
next
  case (Cons e n)
  from Cons.prems obtain z m where z: "entry_exc e = Inr z"
    and m: "map_exc entry_exc n = Inr m" and nz: "n' = z # m"
    by (auto split: sum.splits)
  from z have "fst z = fst e" by (auto simp: entry_exc_def split: sum.splits)
  with Cons.IH [OF m] nz show ?case by simp
qed

lemma map_exc_fixed:
  assumes "map_exc f xs = Inr ys"
    and "\<And>x y. x \<in> set xs \<Longrightarrow> f x = Inr y \<Longrightarrow> f y = Inr y"
  shows "map_exc f ys = Inr ys"
  using assms
proof (induction xs arbitrary: ys)
  case Nil
  then show ?case by simp
next
  case (Cons x xs)
  from Cons.prems(1) obtain y zs where y: "f x = Inr y" and zs: "map_exc f xs = Inr zs"
    and ys: "ys = y # zs"
    by (auto split: sum.splits)
  from Cons.prems(2) [of x y] y have "f y = Inr y" by simp
  moreover have "map_exc f zs = Inr zs"
  proof (rule Cons.IH [OF zs])
    fix x' y' assume "x' \<in> set xs" "f x' = Inr y'"
    with Cons.prems(2) [of x' y'] show "f y' = Inr y'" by simp
  qed
  ultimately show ?case by (simp add: ys)
qed

lemma walk_list_fixed:
  assumes "walk_list xs = Inr xs'"
    and "\<And>x r. x \<in> set xs \<Longrightarrow> walk x = Inr r \<Longrightarrow> walk r = Inr r"
  shows "walk_list xs' = Inr xs'"
  using assms unfolding walk_list_map_exc by (rule map_exc_fixed)

lemma walk_PDict_result: "walk (PDict d) = Inr r \<Longrightarrow> \<exists>d'. r = PDict d'"
  by (auto split: sum.splits)

lemma walk_entry_fixed:
  assumes "walk_entry k v = Inr v'"
    and "\<And>r. descends k v \<Longrightarrow> walk v = Inr r \<Longrightarrow> walk r = Inr r"
    and "\<And>xs x r. descends k v \<Longrightarrow> v = PList xs \<Longrightarrow> x \<in> set xs \<Longrightarrow> walk x = Inr r
           \<Longrightarrow> walk r = Inr r"
  shows "walk_entry k v' = Inr v'"
proof (cases "descends k v")
  case False
  with assms(1) show ?thesis by (simp add: walk_entry_def)
next
  case True
  show ?thesis
  proof (cases v)
    case (PDict d)
    with True assms(1) have w: "walk v = Inr v'" by (simp add: walk_entry_def)
    with PDict walk_PDict_result obtain d' where d': "v' = PDict d'" by blast
    from True PDict have "descends k v'" by (simp add: descends_def d')
    with assms(2) [OF True w] show ?thesis by (simp add: walk_entry_def d')
  next
    case (PList xs)
    with True assms(1) obtain xs' where xs': "walk_list xs = Inr xs'" and v': "v' = PList xs'"
      and chk: "k \<in> {''oneOf'', ''anyOf''} \<and> length xs' = 2
                \<Longrightarrow> \<exists>b. differ_by_integer_number xs' = Inr b"
      by (auto simp: walk_entry_def split: sum.splits if_splits)
    from walk_list_fixed [OF xs'] assms(3) [OF True PList]
    have fx: "walk_list xs' = Inr xs'" by blast
    from True PList have d: "descends k v'" by (simp add: descends_def v')
    show ?thesis
    proof (cases "k \<in> {''oneOf'', ''anyOf''} \<and> length xs' = 2")
      case T: True
      from chk [OF T] obtain b where "differ_by_integer_number xs' = Inr b" by blast
      with T d fx show ?thesis by (simp add: walk_entry_def v')
    next
      case F: False
      with d fx show ?thesis by (auto simp: walk_entry_def v')
    qed
  qed (use True in \<open>simp_all add: descends_def\<close>)
qed

lemma in_dict_set_other: "(k, v) \<in> set (dict_set d k' v') \<Longrightarrow> k \<noteq> k' \<Longrightarrow> (k, v) \<in> set d"
  by (induction d) (auto split: if_splits)

lemma in_default_multipleOf:
  "(k, v) \<in> set (default_multipleOf d) \<Longrightarrow> k \<noteq> ''multipleOf'' \<Longrightarrow> (k, v) \<in> set d"
  by (auto simp: default_multipleOf_def dest: in_dict_set_other split: if_splits)

lemma in_handle_type:
  assumes "(k, v) \<in> set (handle_type d)" and "k \<noteq> ''type''" and "k \<noteq> ''multipleOf''"
  shows "(k, v) \<in> set d"
proof (cases "dict_get d ''type''")
  case None
  with assms show ?thesis by (simp add: handle_type_def)
next
  case (Some ty)
  show ?thesis
  proof (cases ty)
    case (PStr s)
    with assms Some show ?thesis
      by (auto simp: handle_type_def dest!: in_default_multipleOf in_dict_set_other
          split: if_splits)
  next
    case (PList t)
    with assms Some show ?thesis
      by (auto simp: handle_type_list Let_def dest!: in_default_multipleOf in_dict_set_other
          split: if_splits)
  qed (use assms Some in \<open>simp_all add: handle_type_def\<close>)
qed

lemma in_handle_enum:
  assumes "handle_enum d = Inr n" and "(k, v) \<in> set n"
    and "k \<noteq> ''type''" and "k \<noteq> ''multipleOf''" and "k \<noteq> ''enum''"
  shows "(k, v) \<in> set d"
  using assms(1)
proof (cases rule: handle_enum_cases)
  case unchanged
  with assms(2) show ?thesis by simp
next
  case (floats vals fl)
  with assms(2-5) show ?thesis
    by (auto dest!: in_default_multipleOf in_dict_set_other split: if_splits)
qed

lemma descends_key:
  "descends k v \<Longrightarrow> k \<noteq> ''type'' \<and> k \<noteq> ''multipleOf'' \<and> k \<noteq> ''enum''"
  by (cases v) (auto simp: descends_def)

lemma walk_fixed:
  "wf_schema v \<Longrightarrow> walk v = Inr r \<Longrightarrow> walk r = Inr r"
proof (induction v arbitrary: r rule: measure_induct_rule [where f = rsize])
  case (less v)
  show ?case
  proof (cases v)
    case (PDict d)
    from less.prems(1) PDict have dist: "distinct (map fst d)" and ok: "type_ok d"
      and kids: "\<And>e. e \<in> set d \<Longrightarrow> descends (fst e) (snd e) \<Longrightarrow> wf_schema (snd e)"
      by simp_all
    from less.prems(2) PDict walk_PDict [OF dist]
    obtain n n' where n: "handle_enum (handle_type d) = Inr n"
      and n': "map_exc entry_exc n = Inr n'" and r: "r = PDict n'"
      by (auto split: sum.splits)
    note hf = handle_enum_fixed [OF n handle_type_not_integer]
    have dn: "distinct (map fst n)"
      by (rule distinct_handle_enum [OF n distinct_handle_type [OF dist]])
    then have dn': "distinct (map fst n')" by (simp add: entries_keys [OF n'])
    have "type_fixed n"
      using handle_type_type_fixed [OF ok] hf type_fixed_cong [of n "handle_type d"] by simp
    then have tf: "type_fixed n'"
      using type_fixed_cong [of n' n] entries_lookup [OF n'] by simp
    have ef: "enum_fixed n'"
      using hf enum_fixed_cong [of n' n] entries_lookup [OF n'] by simp
    have child: "walk x = Inr y \<Longrightarrow> walk y = Inr y"
      if "(k, c) \<in> set n" "descends k c" "x = c \<or> (\<exists>xs. c = PList xs \<and> x \<in> set xs)"
      for k c x y
    proof -
      from descends_key [OF that(2)] in_handle_enum [OF n that(1)]
      have "(k, c) \<in> set (handle_type d)" by simp
      with descends_key [OF that(2)] in_handle_type have ind: "(k, c) \<in> set d" by blast
      from kids [OF ind] that(2) have wc: "wf_schema c" by simp
      from rsize_entry [OF ind] have sc: "rsize c < rsize v"
        by (simp add: PDict rsize_PDict del: rsize.simps)
      from that(3) wc have wx: "wf_schema x" by auto
      from that(3) sc rsize_elem have sx: "rsize x < rsize v" by fastforce
      assume "walk x = Inr y"
      from less.IH [OF sx wx this] show "walk y = Inr y" .
    qed
    have "entry_exc y = Inr y" if "e \<in> set n" "entry_exc e = Inr y" for e y
    proof -
      obtain k c where e: "e = (k, c)" by (cases e)
      from that(2) obtain c' where c': "walk_entry k c = Inr c'" and y: "y = (k, c')"
        unfolding e entry_exc_def by (auto split: sum.splits)
      have "walk_entry k c' = Inr c'"
      proof (rule walk_entry_fixed [OF c'])
        fix r' assume "descends k c" "walk c = Inr r'"
        with child [of k c c r'] that(1) show "walk r' = Inr r'" by (simp add: e)
      next
        fix xs x r' assume "descends k c" "c = PList xs" "x \<in> set xs" "walk x = Inr r'"
        with child [of k c x r'] that(1) show "walk r' = Inr r'" by (simp add: e)
      qed
      then show ?thesis by (simp add: y entry_exc_def)
    qed
    with map_exc_fixed [OF n'] have fx: "map_exc entry_exc n' = Inr n'" by blast
    show ?thesis
      by (simp only: r walk_PDict [OF dn'] type_fixed_handle_type [OF tf]
          enum_fixed_handle_enum [OF ef] fx sum.case)
  qed (use less.prems(2) in auto)
qed

text \<open>
  A \<^verbatim>\<open>type\<close> array that holds an array is unwrapped one level by each pass, so the
  condition on \<^verbatim>\<open>type\<close> arrays cannot be dropped:
  \<^verbatim>\<open>{"type": [["a"]]}\<close> becomes \<^verbatim>\<open>{"type": ["a"]}\<close>, and that becomes
  \<^verbatim>\<open>{"type": "a"}\<close>.
\<close>

lemma nested_type_array_not_idempotent:
  "sanitize_for_openai_tools (PDict [(''type'', PList [PList [PStr ''a'']])])
     = Inr (PDict [(''type'', PList [PStr ''a''])])
   \<and> sanitize_for_openai_tools (PDict [(''type'', PList [PStr ''a''])])
     = Inr (PDict [(''type'', PStr ''a'')])"
  by (simp add: sanitize_for_openai_tools_def handle_type_def handle_enum_def dict_get_def
      default_multipleOf_def dict_contains_def)

text \<open>
  C3. The sanitizer is idempotent on schemas: when the sanitizer is applied to a schema
  \<open>s\<close> whose visited objects have distinct keys and no array inside a \<^verbatim>\<open>type\<close>
  array, applying it again to the result gives the same result; and when the first
  application raises, that exception is the outcome of both sides. The Python function
  takes the schema as JSON text and returns the parsed, rewritten value; the second
  application is to that value, which is what \<^verbatim>\<open>json.loads\<close> gives back from its
  serialisation.
\<close>

theorem sanitize_idempotent:
  assumes "wf_schema s"
  shows "(case sanitize_for_openai_tools s of
            Inl e \<Rightarrow> Inl e
          | Inr s' \<Rightarrow> sanitize_for_openai_tools s')
         = sanitize_for_openai_tools s"
proof (cases "walk s")
  case (Inl e)
  then show ?thesis by (simp add: sanitize_for_openai_tools_def)
next
  case (Inr s')
  with walk_fixed [OF assms Inr] show ?thesis by (simp add: sanitize_for_openai_tools_def)
qed

theorem sanitize_idempotent_witness:
  "wf_schema (PDict [(''type'', PList [PStr ''integer'', PStr ''null'']),
                     (''enum'', PList [PInt 1, PBool True]),
                     (''default'', PDict [(''type'', PList [PList [PStr ''a'']])]),
                     (''items'', PDict [(''type'', PStr ''integer'')])])
   \<and> sanitize_for_openai_tools
       (PDict [(''type'', PList [PStr ''integer'', PStr ''null'']),
               (''enum'', PList [PInt 1, PBool True]),
               (''default'', PDict [(''type'', PList [PList [PStr ''a'']])]),
               (''items'', PDict [(''type'', PStr ''integer'')])])
     = Inr (PDict [(''type'', PStr ''number''),
                   (''enum'', PList [PFloat 1, PFloat 1]),
                   (''default'', PDict [(''type'', PList [PList [PStr ''a'']])]),
                   (''items'', PDict [(''type'', PStr ''number''), (''multipleOf'', PInt 1)]),
                   (''multipleOf'', PInt 1)])
   \<and> sanitize_for_openai_tools
       (PDict [(''type'', PStr ''number''),
               (''enum'', PList [PFloat 1, PFloat 1]),
               (''default'', PDict [(''type'', PList [PList [PStr ''a'']])]),
               (''items'', PDict [(''type'', PStr ''number''), (''multipleOf'', PInt 1)]),
               (''multipleOf'', PInt 1)])
     = Inr (PDict [(''type'', PStr ''number''),
                   (''enum'', PList [PFloat 1, PFloat 1]),
                   (''default'', PDict [(''type'', PList [PList [PStr ''a'']])]),
                   (''items'', PDict [(''type'', PStr ''number''), (''multipleOf'', PInt 1)]),
                   (''multipleOf'', PInt 1)])"
proof -
  let ?s = "PDict [(''type'', PList [PStr ''integer'', PStr ''null'']),
                   (''enum'', PList [PInt 1, PBool True]),
                   (''default'', PDict [(''type'', PList [PList [PStr ''a'']])]),
                   (''items'', PDict [(''type'', PStr ''integer'')])]"
  have w: "wf_schema ?s"
    by (simp add: type_ok_def dict_get_def descends_def)
  let ?r = "PDict [(''type'', PStr ''number''),
                   (''enum'', PList [PFloat 1, PFloat 1]),
                   (''default'', PDict [(''type'', PList [PList [PStr ''a'']])]),
                   (''items'', PDict [(''type'', PStr ''number''), (''multipleOf'', PInt 1)]),
                   (''multipleOf'', PInt 1)]"
  have r: "sanitize_for_openai_tools ?s = Inr ?r"
    by (simp add: sanitize_for_openai_tools_def handle_type_def handle_enum_def dict_get_def
        default_multipleOf_def dict_contains_def float_of_small_int)
  from sanitize_idempotent [OF w] have "sanitize_for_openai_tools ?r = Inr ?r"
    unfolding r by (simp only: sum.case)
  with w r show ?thesis by (intro conjI)
qed

end
